theory Spec2Isabelle
  imports Main "HOL-Library.Word"
begin

section \<open>Errors and bytes\<close>

text \<open>
  Go \<open>error\<close> values produced by the runtime, the operating system, the RPC transport
  and the child process. \<open>EOF\<close> is \<open>io.EOF\<close>; \<open>Canceled\<close> and \<open>DeadlineExceeded\<close> are
  the two values of \<open>ctx.Err()\<close>; \<open>ExitError n\<close> is the \<open>*exec.ExitError\<close> of a child
  that exited with status \<open>n\<close>; \<open>Errno n\<close> stands for any other error value.
\<close>

datatype go_error = EOF | Canceled | DeadlineExceeded | ExitError nat | Errno nat

type_synonym byte = "8 word"
type_synonym bytes = "byte list"

section \<open>The merging instruction: \<open>DoMergeTo\<close>\<close>

text \<open>
  \<open>util.ReadMessage\<close> and \<open>util.WriteMessage\<close> are outside the source under study.
  An \<open>io.Reader\<close> is represented by the results its successive \<open>ReadMessage\<close> calls
  return; a reader whose results are used up reports \<open>io.EOF\<close>.
  An \<open>io.Writer\<close> holds the messages written so far, and \<open>failures k\<close> is the error (if
  any) of the write attempted when \<open>k\<close> messages have been written.
\<close>

type_synonym reader = "(go_error + bytes) list"

record writer =
  written :: "bytes list"
  failures :: "nat \<Rightarrow> go_error option"

definition WriteMessage :: "writer \<Rightarrow> bytes \<Rightarrow> go_error option \<times> writer" where
  "WriteMessage w x =
     (case failures w (length (written w)) of
        Some e \<Rightarrow> (Some e, w)
      | None \<Rightarrow> (None, w\<lparr>written := written w @ [x]\<rparr>))"

text \<open>
  The inner loop \<open>for err == nil { ... }\<close> of \<open>DoMergeTo\<close> for one reader. It is left
  either by the \<open>return err\<close> of a failed write, or with the read error that ended the loop.
\<close>

datatype loop_exit = WriteFailed go_error | ReadEnded go_error

fun merge_reader :: "reader \<Rightarrow> writer \<Rightarrow> loop_exit \<times> writer" where
  "merge_reader [] w = (ReadEnded EOF, w)"
| "merge_reader (Inl err # r) w = (ReadEnded err, w)"
| "merge_reader (Inr x # r) w =
     (case WriteMessage w x of
        (Some err, w') \<Rightarrow> (WriteFailed err, w')
      | (None, w') \<Rightarrow> merge_reader r w')"

fun DoMergeTo :: "reader list \<Rightarrow> writer \<Rightarrow> go_error option \<times> writer" where
  "DoMergeTo [] w = (None, w)"
| "DoMergeTo (reader # readers) w =
     (case merge_reader reader w of
        (WriteFailed err, w') \<Rightarrow> (Some err, w')
      | (ReadEnded err, w') \<Rightarrow>
          (if err \<noteq> EOF then (Some err, w') else DoMergeTo readers w'))"

text \<open>
  Vocabulary for stating what \<open>DoMergeTo\<close> does: the messages a reader yields before
  its first error, the error that ends it, the messages \<open>DoMergeTo\<close> gets to read (those
  of every reader up to and including the first one that ends in an error other than
  \<open>io.EOF\<close>), that first read error, and the number of writes, among the next \<open>n\<close>, that
  a writer accepts before its first failure.
\<close>

definition read_messages :: "reader \<Rightarrow> bytes list" where
  "read_messages r = map projr (takeWhile (\<lambda>x. \<not> isl x) r)"

definition read_ending :: "reader \<Rightarrow> go_error" where
  "read_ending r = (case dropWhile (\<lambda>x. \<not> isl x) r of [] \<Rightarrow> EOF | x # _ \<Rightarrow> projl x)"

definition attempted :: "reader list \<Rightarrow> bytes list" where
  "attempted rs =
     concat (map read_messages
       (takeWhile (\<lambda>r. read_ending r = EOF) rs
        @ take 1 (dropWhile (\<lambda>r. read_ending r = EOF) rs)))"

definition read_failure :: "reader list \<Rightarrow> go_error option" where
  "read_failure rs =
     (case dropWhile (\<lambda>r. read_ending r = EOF) rs of
        [] \<Rightarrow> None
      | r # _ \<Rightarrow> Some (read_ending r))"

fun accepted :: "(nat \<Rightarrow> go_error option) \<Rightarrow> nat \<Rightarrow> nat \<Rightarrow> nat" where
  "accepted f b 0 = 0"
| "accepted f b (Suc n) = (if f b = None then Suc (accepted f (Suc b) n) else 0)"

section \<open>Working directory and file upload: \<open>SendFileResource\<close>\<close>

text \<open>
  A path is the list of its elements. \<open>path.Join\<close> and \<open>filepath.Join\<close> drop empty
  elements and join the rest; the lexical cleaning of \<open>..\<close> and \<open>.\<close> elements that they
  also perform is not modelled. \<open>decimal\<close> is \<open>fmt.Sprintf("%d", n)\<close> on an unsigned
  number.
\<close>

type_synonym path = "string list"

definition path_Join :: "string list \<Rightarrow> path" where
  "path_Join elems = filter (\<lambda>e. e \<noteq> []) elems"

definition filepath_Join :: "path \<Rightarrow> string \<Rightarrow> path" where
  "filepath_Join d n = filter (\<lambda>e. e \<noteq> []) (d @ [n])"

fun decimal :: "nat \<Rightarrow> string" where
  "decimal n =
     (if n < 10 then [char_of (48 + n)]
      else decimal (n div 10) @ [char_of (48 + n mod 10)])"

declare decimal.simps [simp del]

text \<open>
  The messages of the upload stream (declared in package \<open>pb\<close>): the request carries
  the flow hash code, the relative directory, the file name, the expected hash and a
  content chunk; the response is the literal \<open>pb.FileResourceResponse{hasSameHash, true}\<close>.
\<close>

record FileResourceRequest =
  file_flow_hash_code :: nat
  file_dir :: string
  file_name :: string
  file_hash :: nat
  file_content :: bytes

record FileResourceResponse =
  already_present :: bool
  ok :: bool

text \<open>
  The environment of the agent is \<open>*as.Option.Dir\<close> and the outcome of
  \<open>os.MkdirAll\<close>, which the upload and the execution both call. The environment of one
  upload call adds the outcomes of the other library calls it makes, whose code is outside
  the source under study: \<open>resource.GenerateFileHash\<close>,
  \<open>stream.Send\<close>, \<open>os.OpenFile\<close> and the \<open>k\<close>-th \<open>f.Write\<close> of the call
  (\<open>None\<close>: the whole chunk was written; \<open>Some (n, e)\<close>: \<open>n\<close> bytes were written and the
  error \<open>e\<close> was returned).
\<close>

record agent_env =
  option_dir :: string
  os_mkdir_all :: "path \<Rightarrow> go_error option"

record upload_env = agent_env +
  generate_file_hash :: "path \<Rightarrow> go_error + nat"
  send_ack :: "go_error option"
  open_file :: "path \<Rightarrow> go_error option"
  write_file :: "nat \<Rightarrow> (nat \<times> go_error) option"

text \<open>
  The state an upload call acts on: the results the successive \<open>stream.Recv\<close> calls are
  going to return (a stream whose results are used up reports \<open>io.EOF\<close>, the client's
  half-close), the responses sent, the directories created and the contents of the files.
\<close>

record upload_state =
  inbound :: "(go_error + FileResourceRequest) list"
  sent :: "FileResourceResponse list"
  dirs :: "path set"
  files :: "path \<rightharpoonup> bytes"

definition Recv :: "upload_state \<Rightarrow> (go_error + FileResourceRequest) \<times> upload_state" where
  "Recv st =
     (case inbound st of
        [] \<Rightarrow> (Inl EOF, st)
      | r # rs \<Rightarrow> (r, st\<lparr>inbound := rs\<rparr>))"

definition MkdirAll :: "'a agent_env_scheme \<Rightarrow> path \<Rightarrow> path set \<Rightarrow> go_error option \<times> path set" where
  "MkdirAll env d ds =
     (case os_mkdir_all env d of
        Some err \<Rightarrow> (Some err, ds)
      | None \<Rightarrow> (None, insert d ds))"

definition Send :: "upload_env \<Rightarrow> FileResourceResponse \<Rightarrow> upload_state \<Rightarrow> go_error option \<times> upload_state" where
  "Send env m st =
     (case send_ack env of
        Some err \<Rightarrow> (Some err, st)
      | None \<Rightarrow> (None, st\<lparr>sent := sent st @ [m]\<rparr>))"

text \<open>\<open>os.OpenFile(toFile, os.O_WRONLY|os.O_CREATE|os.O_TRUNC, 0755)\<close>: on success the file
  exists and is empty.\<close>

definition OpenFile :: "upload_env \<Rightarrow> path \<Rightarrow> upload_state \<Rightarrow> go_error option \<times> upload_state" where
  "OpenFile env p st =
     (case open_file env p of
        Some err \<Rightarrow> (Some err, st)
      | None \<Rightarrow> (None, st\<lparr>files := (files st)(p \<mapsto> [])\<rparr>))"

text \<open>
  The receive loop of \<open>SendFileResource\<close> (lines 59 to 72), on the results still to be
  received, the number \<open>k\<close> of writes made and the content \<open>f\<close> of the open file. It
  returns the call's error, the results left unreceived and the file's content.
\<close>

fun receive_chunks ::
  "upload_env \<Rightarrow> (go_error + FileResourceRequest) list \<Rightarrow> nat \<Rightarrow> bytes
     \<Rightarrow> go_error option \<times> (go_error + FileResourceRequest) list \<times> bytes" where
  "receive_chunks env [] k f = (None, [], f)"
| "receive_chunks env (Inl err # inb) k f = (if err = EOF then None else Some err, inb, f)"
| "receive_chunks env (Inr request # inb) k f =
     (case write_file env k of
        Some (n, err) \<Rightarrow> (Some err, inb, f @ take n (file_content request))
      | None \<Rightarrow> receive_chunks env inb (Suc k) (f @ file_content request))"

definition target_dir :: "upload_env \<Rightarrow> FileResourceRequest \<Rightarrow> path" where
  "target_dir env request =
     path_Join [option_dir env, decimal (file_flow_hash_code request), file_dir request]"

definition target_file :: "upload_env \<Rightarrow> FileResourceRequest \<Rightarrow> path" where
  "target_file env request = filepath_Join (target_dir env request) (file_name request)"

definition SendFileResource :: "upload_env \<Rightarrow> upload_state \<Rightarrow> go_error option \<times> upload_state" where
  "SendFileResource env st0 =
     (case Recv st0 of
        (Inl err, st1) \<Rightarrow> (Some err, st1)
      | (Inr request, st1) \<Rightarrow>
          (let dir = target_dir env request;
               (_, ds) = MkdirAll env dir (dirs st1);
               st2 = st1\<lparr>dirs := ds\<rparr>;
               toFile = filepath_Join dir (file_name request);
               hasSameHash =
                 (case generate_file_hash env toFile of
                    Inr toFileHash \<Rightarrow> toFileHash = file_hash request
                  | Inl _ \<Rightarrow> False)
           in case Send env \<lparr>already_present = hasSameHash, ok = True\<rparr> st2 of
                (Some err, st3) \<Rightarrow> (Some err, st3)
              | (None, st3) \<Rightarrow>
                  if hasSameHash then (None, st3)
                  else
                    (case OpenFile env toFile st3 of
                       (Some err, st4) \<Rightarrow> (Some err, st4)
                     | (None, st4) \<Rightarrow>
                         (case receive_chunks env (inbound st4) 0 [] of
                            (res, inb, f) \<Rightarrow>
                              (res, st4\<lparr>inbound := inb, files := (files st4)(toFile \<mapsto> f)\<rparr>)))))"

text \<open>
  Vocabulary for the receive loop: the content chunks that arrive before the stream's
  first error, and the call's result when the stream ends (nil for \<open>io.EOF\<close>, the error
  otherwise).
\<close>

definition chunks_of :: "(go_error + FileResourceRequest) list \<Rightarrow> bytes list" where
  "chunks_of inb = map (\<lambda>x. file_content (projr x)) (takeWhile (\<lambda>x. \<not> isl x) inb)"

definition recv_ending :: "(go_error + FileResourceRequest) list \<Rightarrow> go_error option" where
  "recv_ending inb =
     (case dropWhile (\<lambda>x. \<not> isl x) inb of
        [] \<Rightarrow> None
      | x # _ \<Rightarrow> if projl x = EOF then None else Some (projl x))"

section \<open>Allocation ledger and admission: \<open>Execute\<close>\<close>

text \<open>
  \<open>pb.ComputeResource\<close> with its methods \<open>Plus\<close> and \<open>Minus\<close> is declared in package
  \<open>pb\<close>, outside the source under study. The three axes are kept at arbitrary types
  \<open>'c\<close>, \<open>'m\<close> and \<open>'g\<close>; the theorems ask of them the laws of an additive abelian
  group, which hold for unbounded integers and for machine integers of any width, where
  \<open>+\<close> and \<open>-\<close> wrap around.
\<close>

record ('c, 'm, 'g) ComputeResource =
  cpu_count :: 'c
  memory_mb :: 'm
  gpu_count :: 'g

text \<open>Modelled from the spec: \<open>Plus\<close> of \<open>pb.ComputeResource\<close>, which is not in the source
  under study; section 4.1 describes it as elementwise addition on (CPU, memory-MB, GPU).\<close>

definition Plus ::
  "('c::plus, 'm::plus, 'g::plus) ComputeResource \<Rightarrow> ('c, 'm, 'g) ComputeResource
     \<Rightarrow> ('c, 'm, 'g) ComputeResource" where
  "Plus a b =
     \<lparr>cpu_count = cpu_count a + cpu_count b,
      memory_mb = memory_mb a + memory_mb b,
      gpu_count = gpu_count a + gpu_count b\<rparr>"

text \<open>Modelled from the spec: \<open>Minus\<close> of \<open>pb.ComputeResource\<close>, which is not in the source
  under study; section 4.1 describes it as elementwise subtraction on (CPU, memory-MB, GPU).\<close>

definition Minus ::
  "('c::minus, 'm::minus, 'g::minus) ComputeResource \<Rightarrow> ('c, 'm, 'g) ComputeResource
     \<Rightarrow> ('c, 'm, 'g) ComputeResource" where
  "Minus a b =
     \<lparr>cpu_count = cpu_count a - cpu_count b,
      memory_mb = memory_mb a - memory_mb b,
      gpu_count = gpu_count a - gpu_count b\<rparr>"

text \<open>
  The part of \<open>AgentServer\<close> that \<open>Execute\<close> touches: the ledger \<open>*as.allocatedResource\<close>
  and the directories created on disk. \<open>plusAllocated\<close> and \<open>minusAllocated\<close> hold
  \<open>allocatedResourceLock\<close> for their whole body, so each is one atomic step.
\<close>

record ('c, 'm, 'g) AgentServer =
  allocatedResource :: "('c, 'm, 'g) ComputeResource"
  created_dirs :: "path set"

definition plusAllocated ::
  "('c::plus, 'm::plus, 'g::plus) ComputeResource \<Rightarrow> ('c, 'm, 'g) AgentServer
     \<Rightarrow> ('c, 'm, 'g) AgentServer" where
  "plusAllocated allocated as = as\<lparr>allocatedResource := Plus (allocatedResource as) allocated\<rparr>"

definition minusAllocated ::
  "('c::minus, 'm::minus, 'g::minus) ComputeResource \<Rightarrow> ('c, 'm, 'g) AgentServer
     \<Rightarrow> ('c, 'm, 'g) AgentServer" where
  "minusAllocated allocated as = as\<lparr>allocatedResource := Minus (allocatedResource as) allocated\<rparr>"

text \<open>
  \<open>pb.ExecutionRequest\<close>. The instruction set and the resource are pointers, so either
  may be nil; the getters of a nil instruction set return zero values.
\<close>

record InstructionSet =
  flow_hash_code :: nat
  instructions :: "bytes list"

record ('c, 'm, 'g) ExecutionRequest =
  exec_name :: string
  exec_dir :: string
  exec_instructions :: "InstructionSet option"
  exec_resource :: "('c, 'm, 'g) ComputeResource option"

definition GetFlowHashCode :: "InstructionSet option \<Rightarrow> nat" where
  "GetFlowHashCode m = (case m of None \<Rightarrow> 0 | Some i \<Rightarrow> flow_hash_code i)"

definition working_dir :: "agent_env \<Rightarrow> ('c, 'm, 'g) ExecutionRequest \<Rightarrow> path" where
  "working_dir env request =
     path_Join [option_dir env, decimal (GetFlowHashCode (exec_instructions request)),
                exec_dir request]"

text \<open>
  The errors \<open>executeCommand\<close> returns. \<open>Plain e\<close> is a library error returned as it is;
  the other constructors are the \<open>fmt.Errorf\<close> messages of lines 202, 212, 229, 239, 254
  and 266 around the error they report.
\<close>

datatype call_error =
    Plain go_error
  | FailedToReadStdout go_error
  | FailedToSendStdout go_error
  | FailedToReadStderr go_error
  | FailedToSendStderr go_error
  | FailedToSendEmpty go_error
  | FailedToSendExitStats go_error

text \<open>How the body of \<open>Execute\<close> is left: by a return (with the error or nil), or by a panic.\<close>

datatype exit_path = Return "call_error option" | Panicked

text \<open>
  Lines 78 to 83 of \<open>Execute\<close>: the directory is created and the result of
  \<open>os.MkdirAll\<close> is dropped; \<open>*request.GetResource()\<close> panics on a nil resource, before
  the ledger is touched; otherwise the allocation is added to the ledger and
  \<open>executeCommand\<close> is entered with the directory.
\<close>

datatype ('c, 'm, 'g) admission = NilDereference | Admitted path "('c, 'm, 'g) ComputeResource"

definition Execute_enter ::
  "agent_env \<Rightarrow> ('c::plus, 'm::plus, 'g::plus) ExecutionRequest \<Rightarrow> ('c, 'm, 'g) AgentServer
     \<Rightarrow> ('c, 'm, 'g) admission \<times> ('c, 'm, 'g) AgentServer" where
  "Execute_enter env request as =
     (let dir = working_dir env request;
          (_, ds) = MkdirAll env dir (created_dirs as);
          as1 = as\<lparr>created_dirs := ds\<rparr>
      in case exec_resource request of
           None \<Rightarrow> (NilDereference, as1)
         | Some allocated \<Rightarrow> (Admitted dir allocated, plusAllocated allocated as1))"

section \<open>The execution supervisor: \<open>executeCommand\<close> and its tasks\<close>

text \<open>
  A message sent on the response stream. \<open>pb.ExecutionResponse\<close> is declared in package
  \<open>pb\<close>; the source builds it at four places, one per constructor: the stdout chunk of line
  209, the stderr chunk of line 236, the empty response of line 253 and the exit statistics
  of line 262. The two times are kept as the durations read from \<open>cmd.ProcessState\<close>.
\<close>

record ProcessState =
  SystemTime :: int
  UserTime :: int

datatype ExecutionResponse =
    Output bytes
  | Error bytes
  | Empty
  | ExitStats int int

fun is_exit_stats :: "ExecutionResponse \<Rightarrow> bool" where
  "is_exit_stats (ExitStats st ut) = True"
| "is_exit_stats _ = False"

text \<open>
  \<open>executeCommand\<close> runs five tasks: the supervisor (the function's own goroutine), the
  stdout pump \<open>streamOutput\<close>, the stderr pump \<open>streamError\<close>, the pulse \<open>streamPulse\<close>
  and the exit waiter (the function literal of line 154). Each has a program counter that
  names the statement it executes next, with the local variables that statement uses.
\<close>

datatype sup_pc =
    AtStdinPipe
  | AtStdoutPipe
  | AtStderrPipe
  | AtStart
  | AtMarshal
  | AtStdinWrite bytes
  | AtStdinClose
  | AtSelect
  | AtSendExitStats
  | AtKill
  | AtRelease
  | AtDeferredStop "call_error option"
  | Returned "call_error option"

datatype pump_pc = PumpIdle | PumpRead | PumpSend bytes | PumpReport call_error | PumpDone

datatype pulse_pc = PulseIdle | PulseSelect | PulseSend | PulseDone "call_error option"

datatype waiter_pc = WaiterIdle | WaiterWait | WaiterReport | WaiterDone

text \<open>
  The state of one \<open>executeCommand\<close> call: the five program counters, the buffered channel
  \<open>errChan\<close> (capacity 3), the messages sent on the stream so far, \<open>ctx.Err()\<close> (\<open>None\<close>
  while the context is not done), the bytes written to the child's stdin, the result of
  \<open>stdin.Close\<close>, of \<open>command.Process.Kill\<close> and of \<open>command.Process.Release\<close> (\<open>None\<close>
  while not called), the waiter's variable \<open>waitErr\<close> (\<open>None\<close> while \<open>command.Wait\<close> has
  not returned), \<open>cmd.ProcessState\<close> and the bytes the stderr pump copied to the agent's
  own stderr.
\<close>

record exec_state =
  sup :: sup_pc
  out_pump :: pump_pc
  err_pump :: pump_pc
  pulse :: pulse_pc
  waiter :: waiter_pc
  errChan :: "call_error option list"
  stream :: "ExecutionResponse list"
  ctx_err :: "go_error option"
  child_stdin :: bytes
  stdin_close :: "go_error option option"
  kill_result :: "go_error option option"
  release_result :: "go_error option option"
  waitErr :: "go_error option option"
  process_state :: "ProcessState option"
  agent_stderr :: bytes

definition init_state :: exec_state where
  "init_state =
     \<lparr>sup = AtStdinPipe, out_pump = PumpIdle, err_pump = PumpIdle, pulse = PulseIdle,
      waiter = WaiterIdle, errChan = [], stream = [], ctx_err = None, child_stdin = [],
      stdin_close = None, kill_result = None, release_result = None, waitErr = None,
      process_state = None, agent_stderr = []\<rparr>"

text \<open>
  One event is one atomic step of one task, labelled with what the environment answers:
  the result of a library call, the bytes a read returns, the tick of the timer, the
  cancellation of the context. \<open>StopPulse\<close> is the rendezvous on the unbuffered
  \<open>stopChan\<close>, a step of the supervisor and of the pulse together.
\<close>

datatype event =
    StdinPipe "go_error option"
  | StdoutPipe "go_error option"
  | StderrPipe "go_error option"
  | Start "go_error option"
  | Marshal "go_error + bytes"
  | StdinWrite "go_error option"
  | StdinClose "go_error option"
  | SelectErrChan
  | SelectCtxDone
  | SendExitStats "go_error option"
  | Kill "go_error option"
  | Release "go_error option"
  | StopPulse
  | OutRead bytes "go_error option"
  | OutSend "go_error option"
  | OutReport
  | ErrRead bytes "go_error option"
  | ErrSend "go_error option"
  | ErrReport
  | Tick
  | PulseSendEmpty "go_error option"
  | Wait "go_error option" "ProcessState option"
  | WaitReport
  | Cancel go_error

text \<open>The body of the read loop of a pump after \<open>Read\<close> has returned \<open>(data, err)\<close>
  (lines 198 to 207 and 225 to 234): \<open>io.EOF\<close> ends the pump, another error is reported,
  an empty read is retried, and a chunk is sent.\<close>

definition after_read :: "(go_error \<Rightarrow> call_error) \<Rightarrow> bytes \<Rightarrow> go_error option \<Rightarrow> pump_pc" where
  "after_read failed data err =
     (case err of
        Some e \<Rightarrow> if e = EOF then PumpDone else PumpReport (failed e)
      | None \<Rightarrow> if data = [] then PumpRead else PumpSend data)"

text \<open>
  The steps, task by task, with the lines of the source they stand for.
  \<^item> Supervisor: \<open>StdinPipe\<close>, \<open>StdoutPipe\<close>, \<open>StderrPipe\<close> (lines 108 to 122) and
    \<open>Start\<close> (line 126) return their error at once, before any task exists. A successful
    \<open>Start\<close> goes on through the three \<open>go\<close> statements and the \<open>defer\<close> of lines 132 to
    135, which cannot fail: the pumps and the pulse exist from then on, and every later
    return passes through the deferred \<open>stopChan <- true\<close>. \<open>Marshal\<close> (line 138),
    \<open>StdinWrite\<close> (line 144) and \<open>StdinClose\<close> (line 148) return their error; a
    successful \<open>StdinClose\<close> goes on through the \<open>go\<close> statement of line 154, which starts
    the exit waiter. At the select of line 163, \<open>SelectErrChan\<close> receives the first value
    of \<open>errChan\<close> and \<open>SelectCtxDone\<close> takes \<open>ctx.Done()\<close>; when both are ready either
    may be taken, as Go's select chooses among its ready cases. \<open>SendExitStats\<close> is
    \<open>sendExitStats\<close> (lines 260 to 270), \<open>Kill\<close> and \<open>Release\<close> are lines 172 and 175,
    whose errors are only logged.
  \<^item> \<open>StopPulse\<close>: \<open>stopChan\<close> is unbuffered (line 98), so the deferred send of line
    135 completes only together with the receive of line 250, for which the pulse must be
    at its select.
  \<^item> Pumps: \<open>OutRead\<close>, \<open>OutSend\<close>, \<open>OutReport\<close> are the read, the send and the
    \<open>errChan <-\<close> of \<open>streamOutput\<close> (lines 197, 209 and 202 or 212); \<open>ErrRead\<close>,
    \<open>ErrSend\<close>, \<open>ErrReport\<close> those of \<open>streamError\<close>, whose read also copies the bytes
    to the agent's stderr (line 220). A send on \<open>errChan\<close> waits while the channel holds
    3 values.
  \<^item> Pulse: \<open>Tick\<close> is the receive from the ticker (line 252), at any moment the
    environment chooses; \<open>PulseSendEmpty\<close> is the send of line 253, whose failure makes
    \<open>streamPulse\<close> return (line 254).
  \<^item> Exit waiter: \<open>Wait\<close> is \<open>command.Wait()\<close> returning (line 155), which also sets
    \<open>cmd.ProcessState\<close>; \<open>WaitReport\<close> is line 160.
  \<^item> \<open>Cancel\<close>: the context becomes done.
  A step that is not enabled in a state gives \<open>None\<close>. Each \<open>stream.Send\<close> is taken as
  one atomic step that either appends its message to the stream or fails.
\<close>

fun step :: "event \<Rightarrow> exec_state \<Rightarrow> exec_state option" where
  "step (StdinPipe r) s =
     (if sup s = AtStdinPipe
      then Some (s\<lparr>sup := (case r of Some e \<Rightarrow> Returned (Some (Plain e)) | None \<Rightarrow> AtStdoutPipe)\<rparr>)
      else None)"
| "step (StdoutPipe r) s =
     (if sup s = AtStdoutPipe
      then Some (s\<lparr>sup := (case r of Some e \<Rightarrow> Returned (Some (Plain e)) | None \<Rightarrow> AtStderrPipe)\<rparr>)
      else None)"
| "step (StderrPipe r) s =
     (if sup s = AtStderrPipe
      then Some (s\<lparr>sup := (case r of Some e \<Rightarrow> Returned (Some (Plain e)) | None \<Rightarrow> AtStart)\<rparr>)
      else None)"
| "step (Start r) s =
     (if sup s = AtStart
      then (case r of
              Some e \<Rightarrow> Some (s\<lparr>sup := Returned (Some (Plain e))\<rparr>)
            | None \<Rightarrow>
                Some (s\<lparr>sup := AtMarshal, out_pump := PumpRead, err_pump := PumpRead,
                        pulse := PulseSelect\<rparr>))
      else None)"
| "step (Marshal r) s =
     (if sup s = AtMarshal
      then Some (s\<lparr>sup := (case r of
                              Inl e \<Rightarrow> AtDeferredStop (Some (Plain e))
                            | Inr msgMessageBytes \<Rightarrow> AtStdinWrite msgMessageBytes)\<rparr>)
      else None)"
| "step (StdinWrite r) s =
     (case sup s of
        AtStdinWrite msgMessageBytes \<Rightarrow>
          (case r of
             Some e \<Rightarrow> Some (s\<lparr>sup := AtDeferredStop (Some (Plain e))\<rparr>)
           | None \<Rightarrow>
               Some (s\<lparr>sup := AtStdinClose, child_stdin := child_stdin s @ msgMessageBytes\<rparr>))
      | _ \<Rightarrow> None)"
| "step (StdinClose r) s =
     (if sup s = AtStdinClose
      then (case r of
              Some e \<Rightarrow> Some (s\<lparr>sup := AtDeferredStop (Some (Plain e)), stdin_close := Some r\<rparr>)
            | None \<Rightarrow> Some (s\<lparr>sup := AtSelect, stdin_close := Some r, waiter := WaiterWait\<rparr>))
      else None)"
| "step SelectErrChan s =
     (if sup s = AtSelect
      then (case errChan s of
              [] \<Rightarrow> None
            | err # rest \<Rightarrow>
                Some (s\<lparr>errChan := rest,
                        sup := (case err of
                                  Some e \<Rightarrow> AtDeferredStop (Some e)
                                | None \<Rightarrow> AtSendExitStats)\<rparr>))
      else None)"
| "step SelectCtxDone s =
     (if sup s = AtSelect \<and> ctx_err s \<noteq> None then Some (s\<lparr>sup := AtKill\<rparr>) else None)"
| "step (SendExitStats r) s =
     (if sup s = AtSendExitStats
      then (case process_state s of
              None \<Rightarrow> Some (s\<lparr>sup := AtDeferredStop None\<rparr>)
            | Some ps \<Rightarrow>
                (case r of
                   Some sendErr \<Rightarrow>
                     Some (s\<lparr>sup := AtDeferredStop (Some (FailedToSendExitStats sendErr))\<rparr>)
                 | None \<Rightarrow>
                     Some (s\<lparr>sup := AtDeferredStop None,
                             stream := stream s @ [ExitStats (SystemTime ps) (UserTime ps)]\<rparr>)))
      else None)"
| "step (Kill r) s =
     (if sup s = AtKill then Some (s\<lparr>sup := AtRelease, kill_result := Some r\<rparr>) else None)"
| "step (Release r) s =
     (if sup s = AtRelease
      then (case ctx_err s of
              None \<Rightarrow> None
            | Some c \<Rightarrow> Some (s\<lparr>sup := AtDeferredStop (Some (Plain c)), release_result := Some r\<rparr>))
      else None)"
| "step StopPulse s =
     (case sup s of
        AtDeferredStop res \<Rightarrow>
          (if pulse s = PulseSelect
           then Some (s\<lparr>sup := Returned res, pulse := PulseDone None\<rparr>)
           else None)
      | _ \<Rightarrow> None)"
| "step (OutRead data r) s =
     (if out_pump s = PumpRead \<and> length data \<le> 1024
      then Some (s\<lparr>out_pump := after_read FailedToReadStdout data r\<rparr>)
      else None)"
| "step (OutSend r) s =
     (case out_pump s of
        PumpSend data \<Rightarrow>
          (case r of
             Some sendErr \<Rightarrow> Some (s\<lparr>out_pump := PumpReport (FailedToSendStdout sendErr)\<rparr>)
           | None \<Rightarrow> Some (s\<lparr>out_pump := PumpRead, stream := stream s @ [Output data]\<rparr>))
      | _ \<Rightarrow> None)"
| "step OutReport s =
     (case out_pump s of
        PumpReport e \<Rightarrow>
          (if length (errChan s) < 3
           then Some (s\<lparr>out_pump := PumpDone, errChan := errChan s @ [Some e]\<rparr>)
           else None)
      | _ \<Rightarrow> None)"
| "step (ErrRead data r) s =
     (if err_pump s = PumpRead \<and> length data \<le> 1024
      then Some (s\<lparr>err_pump := after_read FailedToReadStderr data r,
                   agent_stderr := agent_stderr s @ data\<rparr>)
      else None)"
| "step (ErrSend r) s =
     (case err_pump s of
        PumpSend data \<Rightarrow>
          (case r of
             Some sendErr \<Rightarrow> Some (s\<lparr>err_pump := PumpReport (FailedToSendStderr sendErr)\<rparr>)
           | None \<Rightarrow> Some (s\<lparr>err_pump := PumpRead, stream := stream s @ [Error data]\<rparr>))
      | _ \<Rightarrow> None)"
| "step ErrReport s =
     (case err_pump s of
        PumpReport e \<Rightarrow>
          (if length (errChan s) < 3
           then Some (s\<lparr>err_pump := PumpDone, errChan := errChan s @ [Some e]\<rparr>)
           else None)
      | _ \<Rightarrow> None)"
| "step Tick s =
     (if pulse s = PulseSelect then Some (s\<lparr>pulse := PulseSend\<rparr>) else None)"
| "step (PulseSendEmpty r) s =
     (if pulse s = PulseSend
      then (case r of
              Some sendErr \<Rightarrow> Some (s\<lparr>pulse := PulseDone (Some (FailedToSendEmpty sendErr))\<rparr>)
            | None \<Rightarrow> Some (s\<lparr>pulse := PulseSelect, stream := stream s @ [Empty]\<rparr>))
      else None)"
| "step (Wait r ps) s =
     (if waiter s = WaiterWait
      then Some (s\<lparr>waiter := WaiterReport, waitErr := Some r, process_state := ps\<rparr>)
      else None)"
| "step WaitReport s =
     (if waiter s = WaiterReport \<and> length (errChan s) < 3
      then (case waitErr s of
              None \<Rightarrow> None
            | Some r \<Rightarrow>
                Some (s\<lparr>waiter := WaiterDone, errChan := errChan s @ [map_option Plain r]\<rparr>))
      else None)"
| "step (Cancel c) s =
     (if ctx_err s = None \<and> (c = Canceled \<or> c = DeadlineExceeded)
      then Some (s\<lparr>ctx_err := Some c\<rparr>)
      else None)"

fun run :: "event list \<Rightarrow> exec_state \<Rightarrow> exec_state option" where
  "run [] s = Some s"
| "run (ev # evs) s = (case step ev s of None \<Rightarrow> None | Some s' \<Rightarrow> run evs s')"

text \<open>
  Vocabulary for the runs of \<open>executeCommand\<close>: the supervisor before the tasks are
  spawned (lines 108 to 126), and before the exit waiter is (lines 108 to 148).
\<close>

fun before_spawn :: "sup_pc \<Rightarrow> bool" where
  "before_spawn AtStdinPipe = True"
| "before_spawn AtStdoutPipe = True"
| "before_spawn AtStderrPipe = True"
| "before_spawn AtStart = True"
| "before_spawn _ = False"

fun before_select :: "sup_pc \<Rightarrow> bool" where
  "before_select AtMarshal = True"
| "before_select (AtStdinWrite b) = True"
| "before_select AtStdinClose = True"
| "before_select pc = before_spawn pc"



fun from_exit_waiter :: "call_error option \<Rightarrow> bool" where
  "from_exit_waiter None = True"
| "from_exit_waiter (Some (Plain e)) = True"
| "from_exit_waiter _ = False"



text \<open>
  A nil travels from the exit waiter to the supervisor and becomes the exit statistics:
  \<open>nil_count\<close> counts the nils waiting in \<open>errChan\<close>, the nil the supervisor holds when it
  is about to send the statistics, and the statistics on the stream.
\<close>

definition nil_count :: "exec_state \<Rightarrow> nat" where
  "nil_count s =
     length (filter (\<lambda>x. x = None) (errChan s))
     + (if sup s = AtSendExitStats then 1 else 0)
     + length (filter is_exit_stats (stream s))"

text \<open>The invariants of the runs, each preserved by every step. \<open>delivered w x\<close>: the
  value \<open>x\<close> is what the exit waiter puts on \<open>errChan\<close> when its \<open>waitErr\<close> is \<open>w\<close>.\<close>

definition phase_inv :: "exec_state \<Rightarrow> bool" where
  "phase_inv s \<longleftrightarrow>
     (before_spawn (sup s) \<longrightarrow> pulse s = PulseIdle \<and> out_pump s = PumpIdle \<and> err_pump s = PumpIdle)
     \<and> (before_select (sup s) \<longrightarrow> waiter s = WaiterIdle)
     \<and> (waiter s = WaiterIdle \<longrightarrow> waitErr s = None \<and> (\<forall>x\<in>set (errChan s). x \<noteq> None))
     \<and> (\<forall>r. sup s = Returned r \<longrightarrow> pulse s = PulseIdle \<or> pulse s = PulseDone None)"

definition stats_inv :: "exec_state \<Rightarrow> bool" where
  "stats_inv s \<longleftrightarrow>
     nil_count s \<le> 1
     \<and> (nil_count s = 1 \<or> sup s = AtDeferredStop None \<or> sup s = Returned None
          \<longrightarrow> waiter s = WaiterDone \<and> waitErr s = Some None)
     \<and> (filter is_exit_stats (stream s) \<noteq> []
          \<longrightarrow> sup s = AtDeferredStop None \<or> sup s = Returned None)"






section \<open>\<open>Execute\<close> around \<open>executeCommand\<close>\<close>

text \<open>
  The whole of \<open>Execute\<close> for one call, seen when its \<open>executeCommand\<close> has reached
  the state \<open>s\<close>. A nil resource panics at line 81, before the ledger is touched.
  Otherwise the allocation is added; the deferred \<open>minusAllocated\<close> of line 84 runs when
  \<open>executeCommand\<close> has returned, that is when its supervisor has got through the
  deferred \<open>stopChan <- true\<close> of line 135, and \<open>Execute\<close> returns what it returned.
  Until then the call is inside \<open>executeCommand\<close>: it has no result (\<open>None\<close>) and the
  ledger holds its allocation.
\<close>

definition Execute ::
  "agent_env \<Rightarrow> exec_state \<Rightarrow> ('c::{plus,minus}, 'm::{plus,minus}, 'g::{plus,minus}) ExecutionRequest
     \<Rightarrow> ('c, 'm, 'g) AgentServer \<Rightarrow> exit_path option \<times> ('c, 'm, 'g) AgentServer" where
  "Execute env s request as =
     (case Execute_enter env request as of
        (NilDereference, as1) \<Rightarrow> (Some Panicked, as1)
      | (Admitted dir allocated, as1) \<Rightarrow>
          (case sup s of
             Returned res \<Rightarrow> (Some (Return res), minusAllocated allocated as1)
           | _ \<Rightarrow> (None, as1)))"

text \<open>The pulse has returned with the error of a failed keepalive send (line 254).\<close>

definition pulse_failed :: "exec_state \<Rightarrow> bool" where
  "pulse_failed s \<longleftrightarrow> (\<exists>x. pulse s = PulseDone (Some x))"

section \<open>Properties of \<open>DoMergeTo\<close>\<close>

lemma read_messages_simps [simp]:
  "read_messages [] = []"
  "read_messages (Inl e # r) = []"
  "read_messages (Inr x # r) = x # read_messages r"
  by (simp_all add: read_messages_def)

lemma read_ending_simps [simp]:
  "read_ending [] = EOF"
  "read_ending (Inl e # r) = e"
  "read_ending (Inr x # r) = read_ending r"
  by (simp_all add: read_ending_def)

lemma attempted_simps:
  "attempted [] = []"
  "attempted (r # rs) = read_messages r @ (if read_ending r = EOF then attempted rs else [])"
  by (simp_all add: attempted_def)

lemma read_failure_simps:
  "read_failure [] = None"
  "read_failure (r # rs) = (if read_ending r = EOF then read_failure rs else Some (read_ending r))"
  by (simp_all add: read_failure_def)

lemma accepted_le: "accepted f b n \<le> n"
  by (induction n arbitrary: b) auto

lemma accepted_fail: "accepted f b n < n \<Longrightarrow> f (b + accepted f b n) \<noteq> None"
proof (induction n arbitrary: b)
  case 0
  then show ?case by simp
next
  case (Suc n)
  show ?case
  proof (cases "f b")
    case None
    with Suc.prems have "accepted f (Suc b) n < n" by simp
    from Suc.IH [OF this] show ?thesis using None by simp
  next
    case (Some e)
    then show ?thesis by simp
  qed
qed

lemma accepted_add:
  "accepted f b (m + n) =
     (if accepted f b m = m then m + accepted f (b + m) n else accepted f b m)"
  by (induction m arbitrary: b) auto

lemma accepted_all: "(\<forall>k<n. f (b + k) = None) \<Longrightarrow> accepted f b n = n"
proof (induction n arbitrary: b)
  case 0
  then show ?case by simp
next
  case (Suc n)
  have "f b = None" using Suc.prems [rule_format, of 0] by simp
  moreover have "\<forall>k<n. f (Suc b + k) = None"
    using Suc.prems by (metis Suc_less_eq add_Suc_right add_Suc)
  ultimately show ?case using Suc.IH [of "Suc b"] by simp
qed

text \<open>The inner loop writes the reader's messages in read order, up to the first write
  that fails.\<close>

lemma merge_reader_char:
  "merge_reader r w =
     (let ms = read_messages r; n = accepted (failures w) (length (written w)) (length ms)
      in (if n < length ms then WriteFailed (the (failures w (length (written w) + n)))
          else ReadEnded (read_ending r),
          w\<lparr>written := written w @ take n ms\<rparr>))"
proof (induction r arbitrary: w)
  case Nil
  then show ?case by simp
next
  case (Cons a r)
  show ?case
  proof (cases a)
    case (Inl e)
    then show ?thesis by simp
  next
    case (Inr x)
    show ?thesis
    proof (cases "failures w (length (written w))")
      case None
      then show ?thesis using Inr Cons.IH [of "w\<lparr>written := written w @ [x]\<rparr>"]
        by (simp add: WriteMessage_def Let_def)
    next
      case (Some e)
      then show ?thesis using Inr by (simp add: WriteMessage_def)
    qed
  qed
qed

lemma DoMergeTo_char:
  "DoMergeTo rs w =
     (let n = accepted (failures w) (length (written w)) (length (attempted rs))
      in (if n < length (attempted rs) then failures w (length (written w) + n)
          else read_failure rs,
          w\<lparr>written := written w @ take n (attempted rs)\<rparr>))"
proof (induction rs arbitrary: w)
  case Nil
  then show ?case by (simp add: attempted_simps read_failure_simps)
next
  case (Cons r rs)
  let ?ms = "read_messages r"
  let ?b = "length (written w)"
  let ?n = "accepted (failures w) ?b (length ?ms)"
  have le: "?n \<le> length ?ms" by (rule accepted_le)
  show ?case
  proof (cases "?n < length ?ms")
    case True
    have fail: "failures w (?b + ?n) \<noteq> None" using True by (rule accepted_fail)
    show ?thesis using True fail
      by (auto simp add: merge_reader_char Let_def attempted_simps read_failure_simps accepted_add)
  next
    case False
    with le have eq: "?n = length ?ms" by simp
    show ?thesis
    proof (cases "read_ending r = EOF")
      case True
      show ?thesis using eq True Cons.IH [of "w\<lparr>written := written w @ ?ms\<rparr>"]
        by (simp add: merge_reader_char Let_def attempted_simps read_failure_simps
            accepted_add add.assoc)
    next
      case False
      then show ?thesis using eq
        by (simp add: merge_reader_char Let_def attempted_simps read_failure_simps)
    qed
  qed
qed

lemma attempted_all_EOF:
  "(\<forall>r\<in>set rs. read_ending r = EOF) \<Longrightarrow>
     attempted rs = concat (map read_messages rs) \<and> read_failure rs = None"
  by (induction rs) (simp_all add: attempted_simps read_failure_simps)

text \<open>
  C10. \<open>DoMergeTo\<close> writes the messages of the readers, readers in list order and
  messages in read order, and stops at the first failure. With \<open>n\<close> the number of writes
  the writer accepts, the messages written are the first \<open>n\<close> of those read; the result is
  the error of the write that failed, if one did, otherwise the first read error other
  than \<open>io.EOF\<close>, otherwise nil. In particular, when every reader ends in \<open>io.EOF\<close> and no
  write fails, the result is nil and the writer has received the concatenation of all the
  messages of all the readers.
\<close>

theorem DoMergeTo_writes_concatenation:
  "DoMergeTo readers w =
     (let n = accepted (failures w) (length (written w)) (length (attempted readers))
      in (if n < length (attempted readers) then failures w (length (written w) + n)
          else read_failure readers,
          w\<lparr>written := written w @ take n (attempted readers)\<rparr>))
   \<and> ((\<forall>r\<in>set readers. read_ending r = EOF)
        \<and> (\<forall>k<length (concat (map read_messages readers)).
              failures w (length (written w) + k) = None)
      \<longrightarrow> DoMergeTo readers w =
            (None, w\<lparr>written := written w @ concat (map read_messages readers)\<rparr>))"
proof (intro conjI impI)
  show "DoMergeTo readers w =
     (let n = accepted (failures w) (length (written w)) (length (attempted readers))
      in (if n < length (attempted readers) then failures w (length (written w) + n)
          else read_failure readers,
          w\<lparr>written := written w @ take n (attempted readers)\<rparr>))"
    by (rule DoMergeTo_char)
next
  assume h: "(\<forall>r\<in>set readers. read_ending r = EOF)
        \<and> (\<forall>k<length (concat (map read_messages readers)).
              failures w (length (written w) + k) = None)"
  then have a: "attempted readers = concat (map read_messages readers)"
    and f: "read_failure readers = None"
    using attempted_all_EOF [of readers] by simp_all
  have "accepted (failures w) (length (written w)) (length (attempted readers))
          = length (attempted readers)"
    using h a accepted_all [of "length (attempted readers)" "failures w" "length (written w)"]
    by simp
  then show "DoMergeTo readers w =
            (None, w\<lparr>written := written w @ concat (map read_messages readers)\<rparr>)"
    using a f by (simp add: DoMergeTo_char Let_def)
qed

theorem DoMergeTo_writes_concatenation_witness:
  "map read_ending [[Inr [1], Inr [2, 3]], [], [Inr [4], Inl EOF, Inr [9]]] = [EOF, EOF, EOF]
   \<and> map (failures \<lparr>written = [[0]], failures = (\<lambda>k. if k = 4 then Some (Errno 28) else None)\<rparr>)
         [1, 2, 3] = [None, None, None]
   \<and> DoMergeTo [[Inr [1], Inr [2, 3]], [], [Inr [4], Inl EOF, Inr [9]]]
        \<lparr>written = [[0]], failures = (\<lambda>k. if k = 4 then Some (Errno 28) else None)\<rparr>
      = (None, \<lparr>written = [[0], [1], [2, 3], [4]],
                failures = (\<lambda>k. if k = 4 then Some (Errno 28) else None)\<rparr>)"
proof -
  let ?rs = "[[Inr [1], Inr [2, 3]], [], [Inr [4], Inl EOF, Inr [9]]] :: reader list"
  let ?w = "\<lparr>written = [[0]], failures = (\<lambda>k. if k = 4 then Some (Errno 28) else None)\<rparr>"
  have h1: "\<forall>r\<in>set ?rs. read_ending r = EOF"
    by simp
  have h2: "\<forall>k<length (concat (map read_messages ?rs)).
              failures ?w (length (written ?w) + k) = None"
    by simp
  have "DoMergeTo ?rs ?w = (None, ?w\<lparr>written := written ?w @ concat (map read_messages ?rs)\<rparr>)"
    using DoMergeTo_writes_concatenation [of ?rs ?w] h1 h2 by blast
  then have "DoMergeTo ?rs ?w = (None, ?w\<lparr>written := [[0], [1], [2, 3], [4]]\<rparr>)"
    by simp
  then show ?thesis by simp
qed

section \<open>Properties of \<open>SendFileResource\<close>\<close>

lemma chunks_of_simps [simp]:
  "chunks_of [] = []"
  "chunks_of (Inl e # inb) = []"
  "chunks_of (Inr request # inb) = file_content request # chunks_of inb"
  by (simp_all add: chunks_of_def)

lemma recv_ending_simps [simp]:
  "recv_ending [] = None"
  "recv_ending (Inl e # inb) = (if e = EOF then None else Some e)"
  "recv_ending (Inr request # inb) = recv_ending inb"
  by (simp_all add: recv_ending_def)

text \<open>The receive loop with no failing write appends every chunk, in arrival order.\<close>

lemma receive_chunks_all:
  "(\<forall>j<length (chunks_of inb). write_file env (k + j) = None) \<Longrightarrow>
     fst (receive_chunks env inb k f) = recv_ending inb
     \<and> snd (snd (receive_chunks env inb k f)) = f @ concat (chunks_of inb)"
proof (induction inb arbitrary: k f)
  case Nil
  then show ?case by simp
next
  case (Cons a inb)
  show ?case
  proof (cases a)
    case (Inl e)
    then show ?thesis by simp
  next
    case (Inr request)
    have w0: "write_file env k = None"
      using Cons.prems [rule_format, of 0] Inr by simp
    have "\<forall>j<length (chunks_of inb). write_file env (Suc k + j) = None"
    proof (intro allI impI)
      fix j assume "j < length (chunks_of inb)"
      then have "Suc j < length (chunks_of (a # inb))" using Inr by simp
      from Cons.prems [rule_format, OF this] show "write_file env (Suc k + j) = None" by simp
    qed
    from Cons.IH [OF this, of "f @ file_content request"] show ?thesis
      using Inr w0 by simp
  qed
qed

text \<open>Whatever the writes do, the file holds a prefix of the chunks in arrival order.\<close>

lemma receive_chunks_prefix:
  "\<exists>n. snd (snd (receive_chunks env inb k f)) = f @ take n (concat (chunks_of inb))"
proof (induction inb arbitrary: k f)
  case Nil
  then show ?case by simp
next
  case (Cons a inb)
  show ?case
  proof (cases a)
    case (Inl e)
    then show ?thesis by simp
  next
    case (Inr request)
    show ?thesis
    proof (cases "write_file env k")
      case None
      from Cons.IH [of "Suc k" "f @ file_content request"] obtain n where
        n: "snd (snd (receive_chunks env inb (Suc k) (f @ file_content request)))
              = (f @ file_content request) @ take n (concat (chunks_of inb))" by blast
      have "snd (snd (receive_chunks env (a # inb) k f))
              = f @ take (length (file_content request) + n) (concat (chunks_of (a # inb)))"
        using Inr None n by simp
      then show ?thesis by blast
    next
      case (Some p)
      obtain m e where p: "p = (m, e)" by (cases p)
      have "snd (snd (receive_chunks env (a # inb) k f))
              = f @ take (min m (length (file_content request))) (concat (chunks_of (a # inb)))"
        using Inr Some p by (simp add: min_def)
      then show ?thesis by blast
    qed
  qed
qed

text \<open>
  C3. When the first message arrives and the hash of the target file equals the hash of
  the request, the handler receives nothing more and leaves every file as it was; its
  only response is the acknowledgement with \<open>already_present = True\<close>, and when that send
  succeeds the call returns nil. (When the send fails, the call returns the send's error,
  still without receiving or writing.)
\<close>

theorem SendFileResource_same_hash:
  assumes "inbound st = Inr request # rest"
    and "generate_file_hash env (target_file env request) = Inr (file_hash request)"
  shows "inbound (snd (SendFileResource env st)) = rest
         \<and> files (snd (SendFileResource env st)) = files st
         \<and> fst (SendFileResource env st) = send_ack env
         \<and> sent (snd (SendFileResource env st))
             = sent st @ (if send_ack env = None then [\<lparr>already_present = True, ok = True\<rparr>] else [])"
  using assms
  by (simp add: SendFileResource_def Recv_def Send_def MkdirAll_def target_file_def Let_def
      split: option.splits prod.splits)

theorem SendFileResource_same_hash_witness:
  "SendFileResource
     \<lparr>option_dir = ''/tmp'', os_mkdir_all = (\<lambda>d. None),
      generate_file_hash = (\<lambda>p. if p = [''/tmp'', ''7'', ''lib'', ''a.bin''] then Inr 99 else Inl (Errno 2)),
      send_ack = None, open_file = (\<lambda>p. None), write_file = (\<lambda>k. None)\<rparr>
     \<lparr>inbound = [Inr \<lparr>file_flow_hash_code = 7, file_dir = ''lib'', file_name = ''a.bin'',
                       file_hash = 99, file_content = []\<rparr>,
                  Inr \<lparr>file_flow_hash_code = 0, file_dir = [], file_name = [],
                       file_hash = 0, file_content = [1, 2]\<rparr>],
      sent = [], dirs = {}, files = [[''/tmp'', ''7'', ''lib'', ''a.bin''] \<mapsto> [5]]\<rparr>
   = (None,
      \<lparr>inbound = [Inr \<lparr>file_flow_hash_code = 0, file_dir = [], file_name = [],
                       file_hash = 0, file_content = [1, 2]\<rparr>],
       sent = [\<lparr>already_present = True, ok = True\<rparr>],
       dirs = {[''/tmp'', ''7'', ''lib'']},
       files = [[''/tmp'', ''7'', ''lib'', ''a.bin''] \<mapsto> [5]]\<rparr>)"
proof -
  let ?req = "\<lparr>file_flow_hash_code = 7, file_dir = ''lib'', file_name = ''a.bin'',
               file_hash = 99, file_content = []\<rparr>"
  let ?chunk = "\<lparr>file_flow_hash_code = 0, file_dir = [], file_name = [],
                 file_hash = 0, file_content = [1, 2]\<rparr>"
  let ?env = "\<lparr>option_dir = ''/tmp'', os_mkdir_all = (\<lambda>d. None),
      generate_file_hash = (\<lambda>p. if p = [''/tmp'', ''7'', ''lib'', ''a.bin''] then Inr 99 else Inl (Errno 2)),
      send_ack = None, open_file = (\<lambda>p. None), write_file = (\<lambda>k. None)\<rparr>"
  let ?st = "\<lparr>inbound = [Inr ?req, Inr ?chunk], sent = [], dirs = {},
              files = [[''/tmp'', ''7'', ''lib'', ''a.bin''] \<mapsto> [5]]\<rparr>"
  have dec: "decimal 7 = ''7''"
    by code_simp
  have tf: "target_file ?env ?req = [''/tmp'', ''7'', ''lib'', ''a.bin'']"
    by (simp add: target_file_def target_dir_def path_Join_def filepath_Join_def dec)
  have h1: "inbound ?st = Inr ?req # [Inr ?chunk]" by simp
  have h2: "generate_file_hash ?env (target_file ?env ?req) = Inr (file_hash ?req)"
    by (simp add: tf)
  have td: "dirs (snd (SendFileResource ?env ?st)) = {[''/tmp'', ''7'', ''lib'']}"
    by (simp add: SendFileResource_def Recv_def Send_def MkdirAll_def target_dir_def
        path_Join_def filepath_Join_def dec Let_def)
  from SendFileResource_same_hash [OF h1 h2] td
  have "SendFileResource ?env ?st =
          (None, \<lparr>inbound = [Inr ?chunk], sent = [\<lparr>already_present = True, ok = True\<rparr>],
                  dirs = {[''/tmp'', ''7'', ''lib'']},
                  files = [[''/tmp'', ''7'', ''lib'', ''a.bin''] \<mapsto> [5]]\<rparr>)"
    by (cases "SendFileResource ?env ?st") simp
  then show ?thesis .
qed

text \<open>
  C8. When the first message arrives and the target file does not have the hash of the
  request (it does not exist, its hash cannot be computed, or the hash differs), the
  acknowledgement carries \<open>already_present = False\<close>; once it is sent and the file is
  opened, the file is emptied and holds a prefix of the chunks that arrive, in arrival
  order: all of them when no write fails, and then the call returns nil at the client's
  half-close, or the stream's error.
\<close>

theorem SendFileResource_receives_content:
  assumes "inbound st = Inr request # rest"
    and "generate_file_hash env (target_file env request) \<noteq> Inr (file_hash request)"
    and "send_ack env = None"
    and "open_file env (target_file env request) = None"
  shows "sent (snd (SendFileResource env st)) = sent st @ [\<lparr>already_present = False, ok = True\<rparr>]
         \<and> (\<exists>n. files (snd (SendFileResource env st)) (target_file env request)
                  = Some (take n (concat (chunks_of rest))))
         \<and> ((\<forall>k<length (chunks_of rest). write_file env k = None) \<longrightarrow>
               files (snd (SendFileResource env st)) (target_file env request)
                 = Some (concat (chunks_of rest))
               \<and> fst (SendFileResource env st) = recv_ending rest)"
proof -
  let ?tf = "target_file env request"
  let ?rc = "receive_chunks env rest 0 []"
  have nh: "(case generate_file_hash env ?tf of
               Inr toFileHash \<Rightarrow> toFileHash = file_hash request | Inl _ \<Rightarrow> False) = False"
    using assms(2) by (cases "generate_file_hash env ?tf") auto
  have run: "SendFileResource env st =
      (fst ?rc,
       st\<lparr>inbound := fst (snd ?rc),
          dirs := snd (MkdirAll env (target_dir env request) (dirs st)),
          sent := sent st @ [\<lparr>already_present = False, ok = True\<rparr>],
          files := (files st)(?tf \<mapsto> snd (snd ?rc))\<rparr>)"
    using assms(1,3,4) nh
    by (simp add: SendFileResource_def Recv_def Send_def OpenFile_def target_file_def Let_def
        split: prod.splits)
  have s: "sent (snd (SendFileResource env st)) = sent st @ [\<lparr>already_present = False, ok = True\<rparr>]"
    by (simp add: run)
  from receive_chunks_prefix [of env rest 0 "[]"] obtain n where
    "snd (snd ?rc) = take n (concat (chunks_of rest))" by auto
  then have p: "\<exists>n. files (snd (SendFileResource env st)) ?tf = Some (take n (concat (chunks_of rest)))"
    by (auto simp add: run)
  have a: "(\<forall>k<length (chunks_of rest). write_file env k = None) \<longrightarrow>
               files (snd (SendFileResource env st)) ?tf = Some (concat (chunks_of rest))
               \<and> fst (SendFileResource env st) = recv_ending rest"
  proof
    assume "\<forall>k<length (chunks_of rest). write_file env k = None"
    then have "\<forall>j<length (chunks_of rest). write_file env (0 + j) = None" by simp
    from receive_chunks_all [OF this, of "[]"] show
      "files (snd (SendFileResource env st)) ?tf = Some (concat (chunks_of rest))
               \<and> fst (SendFileResource env st) = recv_ending rest"
      by (simp add: run)
  qed
  from s p a show ?thesis by blast
qed

theorem SendFileResource_receives_content_witness:
  "sent (snd (SendFileResource
     \<lparr>option_dir = ''/tmp'', os_mkdir_all = (\<lambda>d. None),
      generate_file_hash = (\<lambda>p. Inl (Errno 2)),
      send_ack = None, open_file = (\<lambda>p. None), write_file = (\<lambda>k. None)\<rparr>
     \<lparr>inbound = [Inr \<lparr>file_flow_hash_code = 7, file_dir = ''lib'', file_name = ''a.bin'',
                       file_hash = 99, file_content = []\<rparr>,
                  Inr \<lparr>file_flow_hash_code = 0, file_dir = [], file_name = [],
                       file_hash = 0, file_content = [1, 2]\<rparr>,
                  Inr \<lparr>file_flow_hash_code = 0, file_dir = [], file_name = [],
                       file_hash = 0, file_content = [3]\<rparr>],
      sent = [], dirs = {}, files = Map.empty\<rparr>))
     = [\<lparr>already_present = False, ok = True\<rparr>]
   \<and> files (snd (SendFileResource
     \<lparr>option_dir = ''/tmp'', os_mkdir_all = (\<lambda>d. None),
      generate_file_hash = (\<lambda>p. Inl (Errno 2)),
      send_ack = None, open_file = (\<lambda>p. None), write_file = (\<lambda>k. None)\<rparr>
     \<lparr>inbound = [Inr \<lparr>file_flow_hash_code = 7, file_dir = ''lib'', file_name = ''a.bin'',
                       file_hash = 99, file_content = []\<rparr>,
                  Inr \<lparr>file_flow_hash_code = 0, file_dir = [], file_name = [],
                       file_hash = 0, file_content = [1, 2]\<rparr>,
                  Inr \<lparr>file_flow_hash_code = 0, file_dir = [], file_name = [],
                       file_hash = 0, file_content = [3]\<rparr>],
      sent = [], dirs = {}, files = Map.empty\<rparr>)) [''/tmp'', ''7'', ''lib'', ''a.bin'']
     = Some [1, 2, 3]
   \<and> fst (SendFileResource
     \<lparr>option_dir = ''/tmp'', os_mkdir_all = (\<lambda>d. None),
      generate_file_hash = (\<lambda>p. Inl (Errno 2)),
      send_ack = None, open_file = (\<lambda>p. None), write_file = (\<lambda>k. None)\<rparr>
     \<lparr>inbound = [Inr \<lparr>file_flow_hash_code = 7, file_dir = ''lib'', file_name = ''a.bin'',
                       file_hash = 99, file_content = []\<rparr>,
                  Inr \<lparr>file_flow_hash_code = 0, file_dir = [], file_name = [],
                       file_hash = 0, file_content = [1, 2]\<rparr>,
                  Inr \<lparr>file_flow_hash_code = 0, file_dir = [], file_name = [],
                       file_hash = 0, file_content = [3]\<rparr>],
      sent = [], dirs = {}, files = Map.empty\<rparr>) = None"
proof -
  let ?req = "\<lparr>file_flow_hash_code = 7, file_dir = ''lib'', file_name = ''a.bin'',
               file_hash = 99, file_content = []\<rparr>"
  let ?c1 = "\<lparr>file_flow_hash_code = 0, file_dir = [], file_name = [],
                 file_hash = 0, file_content = [1, 2]\<rparr>"
  let ?c2 = "\<lparr>file_flow_hash_code = 0, file_dir = [], file_name = [],
                 file_hash = 0, file_content = [3]\<rparr>"
  let ?env = "\<lparr>option_dir = ''/tmp'', os_mkdir_all = (\<lambda>d. None),
      generate_file_hash = (\<lambda>p. Inl (Errno 2)),
      send_ack = None, open_file = (\<lambda>p. None), write_file = (\<lambda>k. None)\<rparr>"
  let ?st = "\<lparr>inbound = [Inr ?req, Inr ?c1, Inr ?c2], sent = [], dirs = {},
              files = Map.empty\<rparr>"
  have dec: "decimal 7 = ''7''"
    by code_simp
  have tf: "target_file ?env ?req = [''/tmp'', ''7'', ''lib'', ''a.bin'']"
    by (simp add: target_file_def target_dir_def path_Join_def filepath_Join_def dec)
  have h1: "inbound ?st = Inr ?req # [Inr ?c1, Inr ?c2]" by simp
  have h2: "generate_file_hash ?env (target_file ?env ?req) \<noteq> Inr (file_hash ?req)" by simp
  have h3: "send_ack ?env = None" by simp
  have h4: "open_file ?env (target_file ?env ?req) = None" by simp
  have h5: "\<forall>k<length (chunks_of [Inr ?c1, Inr ?c2]). write_file ?env k = None" by simp
  have c: "concat (chunks_of [Inr ?c1, Inr ?c2]) = [1, 2, 3]" by simp
  have e: "recv_ending [Inr ?c1, Inr ?c2] = None" by simp
  from SendFileResource_receives_content [OF h1 h2 h3 h4] h5
  have "sent (snd (SendFileResource ?env ?st)) = [\<lparr>already_present = False, ok = True\<rparr>]
      \<and> files (snd (SendFileResource ?env ?st)) (target_file ?env ?req)
           = Some (concat (chunks_of [Inr ?c1, Inr ?c2]))
      \<and> fst (SendFileResource ?env ?st) = recv_ending [Inr ?c1, Inr ?c2]"
    by auto
  then show ?thesis unfolding tf c e .
qed

section \<open>The working-directory resolver in its two callers\<close>

text \<open>What a call does never depends on the outcome of \<open>os.MkdirAll\<close>, apart from the
  directory that a successful creation leaves behind.\<close>

lemma receive_chunks_mkdir_irrelevant:
  "receive_chunks (env\<lparr>os_mkdir_all := m\<rparr>) inb k f = receive_chunks env inb k f"
proof (induction inb arbitrary: k f)
  case Nil
  then show ?case by simp
next
  case (Cons a inb)
  then show ?case by (cases a) (simp_all split: option.splits)
qed

lemma SendFileResource_mkdir_irrelevant:
  "fst (SendFileResource (env\<lparr>os_mkdir_all := m\<rparr>) st) = fst (SendFileResource env st)
   \<and> inbound (snd (SendFileResource (env\<lparr>os_mkdir_all := m\<rparr>) st))
       = inbound (snd (SendFileResource env st))
   \<and> sent (snd (SendFileResource (env\<lparr>os_mkdir_all := m\<rparr>) st))
       = sent (snd (SendFileResource env st))
   \<and> files (snd (SendFileResource (env\<lparr>os_mkdir_all := m\<rparr>) st))
       = files (snd (SendFileResource env st))"
proof (cases "inbound st")
  case Nil
  then show ?thesis by (simp add: SendFileResource_def Recv_def)
next
  case (Cons a rest)
  show ?thesis
  proof (cases a)
    case (Inl e)
    then show ?thesis using Cons by (simp add: SendFileResource_def Recv_def)
  next
    case (Inr request)
    then show ?thesis using Cons
      by (simp add: SendFileResource_def Recv_def Send_def OpenFile_def MkdirAll_def
          target_dir_def Let_def receive_chunks_mkdir_irrelevant
          split: option.splits prod.splits)
  qed
qed

lemma Execute_enter_mkdir_irrelevant:
  "fst (Execute_enter (env\<lparr>os_mkdir_all := m\<rparr>) request as) = fst (Execute_enter env request as)
   \<and> allocatedResource (snd (Execute_enter (env\<lparr>os_mkdir_all := m\<rparr>) request as))
       = allocatedResource (snd (Execute_enter env request as))"
  by (simp add: Execute_enter_def MkdirAll_def working_dir_def plusAllocated_def Let_def
      split: option.splits prod.splits)

text \<open>
  C6, as stated, fails. Here \<open>os.MkdirAll\<close> fails with error 13 for every directory. The
  upload handler nevertheless goes on: it sends the acknowledgement and tries to open the
  file, and the error it returns is the one of \<open>os.OpenFile\<close> (error 2), not the one of
  the resolver. \<open>Execute\<close> nevertheless adds the allocation to the ledger and enters
  \<open>executeCommand\<close> with the directory that was not created.
\<close>

theorem resolver_failure_fatal_counterexample:
  "MkdirAll \<lparr>option_dir = ''/tmp'', os_mkdir_all = (\<lambda>d. Some (Errno 13))\<rparr>
      [''/tmp'', ''7'', ''lib''] {} = (Some (Errno 13), {})
   \<and> SendFileResource
       \<lparr>option_dir = ''/tmp'', os_mkdir_all = (\<lambda>d. Some (Errno 13)),
        generate_file_hash = (\<lambda>p. Inl (Errno 2)),
        send_ack = None, open_file = (\<lambda>p. Some (Errno 2)), write_file = (\<lambda>k. None)\<rparr>
       \<lparr>inbound = [Inr \<lparr>file_flow_hash_code = 7, file_dir = ''lib'', file_name = ''a.bin'',
                         file_hash = 99, file_content = []\<rparr>],
        sent = [], dirs = {}, files = Map.empty\<rparr>
     = (Some (Errno 2),
        \<lparr>inbound = [], sent = [\<lparr>already_present = False, ok = True\<rparr>], dirs = {},
         files = Map.empty\<rparr>)
   \<and> Execute_enter \<lparr>option_dir = ''/tmp'', os_mkdir_all = (\<lambda>d. Some (Errno 13))\<rparr>
       \<lparr>exec_name = ''job'', exec_dir = ''lib'',
        exec_instructions = Some \<lparr>flow_hash_code = 7, instructions = []\<rparr>,
        exec_resource = Some \<lparr>cpu_count = 2, memory_mb = 1024, gpu_count = 0\<rparr>\<rparr>
       \<lparr>allocatedResource = \<lparr>cpu_count = 1 :: int, memory_mb = 512 :: int, gpu_count = 0 :: int\<rparr>,
        created_dirs = {}\<rparr>
     = (Admitted [''/tmp'', ''7'', ''lib''] \<lparr>cpu_count = 2, memory_mb = 1024, gpu_count = 0\<rparr>,
        \<lparr>allocatedResource = \<lparr>cpu_count = 3, memory_mb = 1536, gpu_count = 0\<rparr>,
         created_dirs = {}\<rparr>)"
proof -
  have dec: "decimal 7 = ''7''"
    by code_simp
  show ?thesis
    by (simp add: SendFileResource_def Recv_def Send_def OpenFile_def MkdirAll_def
        target_dir_def path_Join_def filepath_Join_def dec Let_def Execute_enter_def
        working_dir_def GetFlowHashCode_def plusAllocated_def Plus_def)
qed

text \<open>
  C6, amended. Neither caller looks at the result of the resolver: with any other outcome
  of \<open>os.MkdirAll\<close> the upload returns the same result, receives, sends and writes the
  same, and the admission of \<open>Execute\<close> gives the same verdict and the same ledger. A call
  therefore fails only when one of its later steps fails.
\<close>

theorem resolver_result_ignored:
  "fst (SendFileResource (env\<lparr>os_mkdir_all := m\<rparr>) st) = fst (SendFileResource env st)
   \<and> inbound (snd (SendFileResource (env\<lparr>os_mkdir_all := m\<rparr>) st))
       = inbound (snd (SendFileResource env st))
   \<and> sent (snd (SendFileResource (env\<lparr>os_mkdir_all := m\<rparr>) st))
       = sent (snd (SendFileResource env st))
   \<and> files (snd (SendFileResource (env\<lparr>os_mkdir_all := m\<rparr>) st))
       = files (snd (SendFileResource env st))
   \<and> fst (Execute_enter (aenv\<lparr>os_mkdir_all := m\<rparr>) request as)
       = fst (Execute_enter aenv request as)
   \<and> allocatedResource (snd (Execute_enter (aenv\<lparr>os_mkdir_all := m\<rparr>) request as))
       = allocatedResource (snd (Execute_enter aenv request as))"
  using SendFileResource_mkdir_irrelevant [where env = env and m = m and st = st]
    Execute_enter_mkdir_irrelevant [where env = aenv and m = m and request = request and as = as]
  by simp

section \<open>Properties of \<open>executeCommand\<close>\<close>


lemma run_invariant:
  assumes step: "\<And>ev s s'. step ev s = Some s' \<Longrightarrow> P s \<Longrightarrow> P s'"
  shows "run evs s = Some s' \<Longrightarrow> P s \<Longrightarrow> P s'"
proof (induction evs arbitrary: s)
  case Nil
  then show ?case by simp
next
  case (Cons ev evs)
  from Cons.prems(1) obtain s1 where s1: "step ev s = Some s1" and r: "run evs s1 = Some s'"
    by (auto split: option.splits)
  from step [OF s1 Cons.prems(2)] have "P s1" .
  from Cons.IH [OF r this] show ?case .
qed

lemma after_read_simps:
  "after_read f d (Some EOF) = PumpDone"
  "e \<noteq> EOF \<Longrightarrow> after_read f d (Some e) = PumpReport (f e)"
  "d = [] \<Longrightarrow> after_read f d None = PumpRead"
  "d \<noteq> [] \<Longrightarrow> after_read f d None = PumpSend d"
  by (simp_all add: after_read_def)

text \<open>The steps of the five tasks, one case for each way a step can go.\<close>

lemma step_cases [consumes 1, case_names
    StdinPipe_error StdinPipe_ok StdoutPipe_error StdoutPipe_ok StderrPipe_error
    StderrPipe_ok Start_error Start_ok Marshal_error Marshal_ok StdinWrite_error
    StdinWrite_ok StdinClose_error StdinClose_ok Select_error Select_nil Select_done
    Stats_no_state Stats_error Stats_ok Kill Release StopPulse OutRead_EOF OutRead_error
    OutRead_nothing OutRead_chunk OutSend_error OutSend_ok OutReport ErrRead_EOF
    ErrRead_error ErrRead_nothing ErrRead_chunk ErrSend_error ErrSend_ok ErrReport Tick
    Pulse_error Pulse_ok Wait WaitReport Cancel]:
  assumes "step ev s = Some s'"
    and "\<And>e. ev = StdinPipe (Some e) \<Longrightarrow> sup s = AtStdinPipe
         \<Longrightarrow> s' = s\<lparr>sup := Returned (Some (Plain e))\<rparr>
         \<Longrightarrow> thesis"
    and "ev = StdinPipe None \<Longrightarrow> sup s = AtStdinPipe
         \<Longrightarrow> s' = s\<lparr>sup := AtStdoutPipe\<rparr> \<Longrightarrow> thesis"
    and "\<And>e. ev = StdoutPipe (Some e) \<Longrightarrow> sup s = AtStdoutPipe
         \<Longrightarrow> s' = s\<lparr>sup := Returned (Some (Plain e))\<rparr>
         \<Longrightarrow> thesis"
    and "ev = StdoutPipe None \<Longrightarrow> sup s = AtStdoutPipe
         \<Longrightarrow> s' = s\<lparr>sup := AtStderrPipe\<rparr> \<Longrightarrow> thesis"
    and "\<And>e. ev = StderrPipe (Some e) \<Longrightarrow> sup s = AtStderrPipe
         \<Longrightarrow> s' = s\<lparr>sup := Returned (Some (Plain e))\<rparr>
         \<Longrightarrow> thesis"
    and "ev = StderrPipe None \<Longrightarrow> sup s = AtStderrPipe
         \<Longrightarrow> s' = s\<lparr>sup := AtStart\<rparr> \<Longrightarrow> thesis"
    and "\<And>e. ev = Start (Some e) \<Longrightarrow> sup s = AtStart
         \<Longrightarrow> s' = s\<lparr>sup := Returned (Some (Plain e))\<rparr>
         \<Longrightarrow> thesis"
    and "ev = Start None \<Longrightarrow> sup s = AtStart
         \<Longrightarrow> s' = s\<lparr>sup := AtMarshal, out_pump := PumpRead, err_pump := PumpRead, pulse := PulseSelect\<rparr>
         \<Longrightarrow> thesis"
    and "\<And>e. ev = Marshal (Inl e) \<Longrightarrow> sup s = AtMarshal
         \<Longrightarrow> s' = s\<lparr>sup := AtDeferredStop (Some (Plain e))\<rparr>
         \<Longrightarrow> thesis"
    and "\<And>b. ev = Marshal (Inr b) \<Longrightarrow> sup s = AtMarshal
         \<Longrightarrow> s' = s\<lparr>sup := AtStdinWrite b\<rparr> \<Longrightarrow> thesis"
    and "\<And>b e. ev = StdinWrite (Some e) \<Longrightarrow> sup s = AtStdinWrite b
         \<Longrightarrow> s' = s\<lparr>sup := AtDeferredStop (Some (Plain e))\<rparr>
         \<Longrightarrow> thesis"
    and "\<And>b. ev = StdinWrite None \<Longrightarrow> sup s = AtStdinWrite b
         \<Longrightarrow> s' = s\<lparr>sup := AtStdinClose, child_stdin := child_stdin s @ b\<rparr>
         \<Longrightarrow> thesis"
    and "\<And>e. ev = StdinClose (Some e) \<Longrightarrow> sup s = AtStdinClose
         \<Longrightarrow> s' = s\<lparr>sup := AtDeferredStop (Some (Plain e)), stdin_close := Some (Some e)\<rparr>
         \<Longrightarrow> thesis"
    and "ev = StdinClose None \<Longrightarrow> sup s = AtStdinClose
         \<Longrightarrow> s' = s\<lparr>sup := AtSelect, stdin_close := Some None, waiter := WaiterWait\<rparr>
         \<Longrightarrow> thesis"
    and "\<And>e rest. ev = SelectErrChan \<Longrightarrow> sup s = AtSelect
         \<Longrightarrow> errChan s = Some e # rest
         \<Longrightarrow> s' = s\<lparr>errChan := rest, sup := AtDeferredStop (Some e)\<rparr>
         \<Longrightarrow> thesis"
    and "\<And>rest. ev = SelectErrChan \<Longrightarrow> sup s = AtSelect
         \<Longrightarrow> errChan s = None # rest
         \<Longrightarrow> s' = s\<lparr>errChan := rest, sup := AtSendExitStats\<rparr>
         \<Longrightarrow> thesis"
    and "\<And>c. ev = SelectCtxDone \<Longrightarrow> sup s = AtSelect
         \<Longrightarrow> ctx_err s = Some c
         \<Longrightarrow> s' = s\<lparr>sup := AtKill\<rparr> \<Longrightarrow> thesis"
    and "\<And>r. ev = SendExitStats r \<Longrightarrow> sup s = AtSendExitStats
         \<Longrightarrow> process_state s = None
         \<Longrightarrow> s' = s\<lparr>sup := AtDeferredStop None\<rparr>
         \<Longrightarrow> thesis"
    and "\<And>e ps. ev = SendExitStats (Some e) \<Longrightarrow> sup s = AtSendExitStats
         \<Longrightarrow> process_state s = Some ps
         \<Longrightarrow> s' = s\<lparr>sup := AtDeferredStop (Some (FailedToSendExitStats e))\<rparr>
         \<Longrightarrow> thesis"
    and "\<And>ps. ev = SendExitStats None \<Longrightarrow> sup s = AtSendExitStats
         \<Longrightarrow> process_state s = Some ps
         \<Longrightarrow> s' = s\<lparr>sup := AtDeferredStop None, stream := stream s @ [ExitStats (SystemTime ps) (UserTime ps)]\<rparr>
         \<Longrightarrow> thesis"
    and "\<And>r. ev = Kill r \<Longrightarrow> sup s = AtKill
         \<Longrightarrow> s' = s\<lparr>sup := AtRelease, kill_result := Some r\<rparr>
         \<Longrightarrow> thesis"
    and "\<And>r c. ev = Release r \<Longrightarrow> sup s = AtRelease
         \<Longrightarrow> ctx_err s = Some c
         \<Longrightarrow> s' = s\<lparr>sup := AtDeferredStop (Some (Plain c)), release_result := Some r\<rparr>
         \<Longrightarrow> thesis"
    and "\<And>res. ev = StopPulse \<Longrightarrow> sup s = AtDeferredStop res
         \<Longrightarrow> pulse s = PulseSelect
         \<Longrightarrow> s' = s\<lparr>sup := Returned res, pulse := PulseDone None\<rparr>
         \<Longrightarrow> thesis"
    and "\<And>d. ev = OutRead d (Some EOF) \<Longrightarrow> out_pump s = PumpRead
         \<Longrightarrow> length d \<le> 1024
         \<Longrightarrow> s' = s\<lparr>out_pump := PumpDone\<rparr> \<Longrightarrow> thesis"
    and "\<And>d e. ev = OutRead d (Some e) \<Longrightarrow> out_pump s = PumpRead
         \<Longrightarrow> length d \<le> 1024 \<Longrightarrow> e \<noteq> EOF
         \<Longrightarrow> s' = s\<lparr>out_pump := PumpReport (FailedToReadStdout e)\<rparr>
         \<Longrightarrow> thesis"
    and "\<And>d. ev = OutRead d None \<Longrightarrow> out_pump s = PumpRead
         \<Longrightarrow> length d \<le> 1024 \<Longrightarrow> d = []
         \<Longrightarrow> s' = s\<lparr>out_pump := PumpRead\<rparr> \<Longrightarrow> thesis"
    and "\<And>d. ev = OutRead d None \<Longrightarrow> out_pump s = PumpRead
         \<Longrightarrow> length d \<le> 1024 \<Longrightarrow> d \<noteq> []
         \<Longrightarrow> s' = s\<lparr>out_pump := PumpSend d\<rparr>
         \<Longrightarrow> thesis"
    and "\<And>d e. ev = OutSend (Some e) \<Longrightarrow> out_pump s = PumpSend d
         \<Longrightarrow> s' = s\<lparr>out_pump := PumpReport (FailedToSendStdout e)\<rparr>
         \<Longrightarrow> thesis"
    and "\<And>d. ev = OutSend None \<Longrightarrow> out_pump s = PumpSend d
         \<Longrightarrow> s' = s\<lparr>out_pump := PumpRead, stream := stream s @ [Output d]\<rparr>
         \<Longrightarrow> thesis"
    and "\<And>e. ev = OutReport \<Longrightarrow> out_pump s = PumpReport e
         \<Longrightarrow> length (errChan s) < 3
         \<Longrightarrow> s' = s\<lparr>out_pump := PumpDone, errChan := errChan s @ [Some e]\<rparr>
         \<Longrightarrow> thesis"
    and "\<And>d. ev = ErrRead d (Some EOF) \<Longrightarrow> err_pump s = PumpRead
         \<Longrightarrow> length d \<le> 1024
         \<Longrightarrow> s' = s\<lparr>err_pump := PumpDone, agent_stderr := agent_stderr s @ d\<rparr>
         \<Longrightarrow> thesis"
    and "\<And>d e. ev = ErrRead d (Some e) \<Longrightarrow> err_pump s = PumpRead
         \<Longrightarrow> length d \<le> 1024 \<Longrightarrow> e \<noteq> EOF
         \<Longrightarrow> s' = s\<lparr>err_pump := PumpReport (FailedToReadStderr e), agent_stderr := agent_stderr s @ d\<rparr>
         \<Longrightarrow> thesis"
    and "\<And>d. ev = ErrRead d None \<Longrightarrow> err_pump s = PumpRead
         \<Longrightarrow> length d \<le> 1024 \<Longrightarrow> d = []
         \<Longrightarrow> s' = s\<lparr>err_pump := PumpRead, agent_stderr := agent_stderr s @ d\<rparr>
         \<Longrightarrow> thesis"
    and "\<And>d. ev = ErrRead d None \<Longrightarrow> err_pump s = PumpRead
         \<Longrightarrow> length d \<le> 1024 \<Longrightarrow> d \<noteq> []
         \<Longrightarrow> s' = s\<lparr>err_pump := PumpSend d, agent_stderr := agent_stderr s @ d\<rparr>
         \<Longrightarrow> thesis"
    and "\<And>d e. ev = ErrSend (Some e) \<Longrightarrow> err_pump s = PumpSend d
         \<Longrightarrow> s' = s\<lparr>err_pump := PumpReport (FailedToSendStderr e)\<rparr>
         \<Longrightarrow> thesis"
    and "\<And>d. ev = ErrSend None \<Longrightarrow> err_pump s = PumpSend d
         \<Longrightarrow> s' = s\<lparr>err_pump := PumpRead, stream := stream s @ [Error d]\<rparr>
         \<Longrightarrow> thesis"
    and "\<And>e. ev = ErrReport \<Longrightarrow> err_pump s = PumpReport e
         \<Longrightarrow> length (errChan s) < 3
         \<Longrightarrow> s' = s\<lparr>err_pump := PumpDone, errChan := errChan s @ [Some e]\<rparr>
         \<Longrightarrow> thesis"
    and "ev = Tick \<Longrightarrow> pulse s = PulseSelect
         \<Longrightarrow> s' = s\<lparr>pulse := PulseSend\<rparr> \<Longrightarrow> thesis"
    and "\<And>e. ev = PulseSendEmpty (Some e) \<Longrightarrow> pulse s = PulseSend
         \<Longrightarrow> s' = s\<lparr>pulse := PulseDone (Some (FailedToSendEmpty e))\<rparr>
         \<Longrightarrow> thesis"
    and "ev = PulseSendEmpty None \<Longrightarrow> pulse s = PulseSend
         \<Longrightarrow> s' = s\<lparr>pulse := PulseSelect, stream := stream s @ [Empty]\<rparr>
         \<Longrightarrow> thesis"
    and "\<And>r ps. ev = Wait r ps \<Longrightarrow> waiter s = WaiterWait
         \<Longrightarrow> s' = s\<lparr>waiter := WaiterReport, waitErr := Some r, process_state := ps\<rparr>
         \<Longrightarrow> thesis"
    and "\<And>r. ev = WaitReport \<Longrightarrow> waiter s = WaiterReport
         \<Longrightarrow> waitErr s = Some r \<Longrightarrow> length (errChan s) < 3
         \<Longrightarrow> s' = s\<lparr>waiter := WaiterDone, errChan := errChan s @ [map_option Plain r]\<rparr>
         \<Longrightarrow> thesis"
    and "\<And>c. ev = Cancel c \<Longrightarrow> ctx_err s = None
         \<Longrightarrow> c = Canceled \<or> c = DeadlineExceeded
         \<Longrightarrow> s' = s\<lparr>ctx_err := Some c\<rparr> \<Longrightarrow> thesis"
  shows thesis

proof (cases ev)
  case (StdinPipe r)
  with assms(1) show thesis
    using assms(2) assms(3)
    by (auto simp add: after_read_def split: if_splits option.splits )
next
  case (StdoutPipe r)
  with assms(1) show thesis
    using assms(4) assms(5)
    by (auto simp add: after_read_def split: if_splits option.splits )
next
  case (StderrPipe r)
  with assms(1) show thesis
    using assms(6) assms(7)
    by (auto simp add: after_read_def split: if_splits option.splits )
next
  case (Start r)
  with assms(1) show thesis
    using assms(8) assms(9)
    by (auto simp add: after_read_def split: if_splits option.splits )
next
  case (Marshal r)
  with assms(1) show thesis
    using assms(10) assms(11)
    by (auto simp add: after_read_def split: if_splits option.splits sum.splits)
next
  case (StdinWrite r)
  with assms(1) show thesis
    using assms(12) assms(13)
    by (auto simp add: after_read_def split: if_splits option.splits sup_pc.splits)
next
  case (StdinClose r)
  with assms(1) show thesis
    using assms(14) assms(15)
    by (auto simp add: after_read_def split: if_splits option.splits )
next
  case SelectErrChan
  with assms(1) show thesis
    using assms(16) assms(17)
    by (auto simp add: after_read_def split: if_splits option.splits list.splits)
next
  case SelectCtxDone
  with assms(1) show thesis
    using assms(18)
    by (auto simp add: after_read_def split: if_splits option.splits )
next
  case (SendExitStats r)
  with assms(1) show thesis
    using assms(19) assms(20) assms(21)
    by (auto simp add: after_read_def split: if_splits option.splits )
next
  case (Kill r)
  with assms(1) show thesis
    using assms(22)
    by (auto simp add: after_read_def split: if_splits option.splits )
next
  case (Release r)
  with assms(1) show thesis
    using assms(23)
    by (auto simp add: after_read_def split: if_splits option.splits )
next
  case StopPulse
  with assms(1) show thesis
    using assms(24)
    by (auto simp add: after_read_def split: if_splits option.splits sup_pc.splits)
next
  case (OutRead d r)
  with assms(1) show thesis
    using assms(25) assms(26) assms(27) assms(28)
    by (auto simp add: after_read_def split: if_splits option.splits )
next
  case (OutSend r)
  with assms(1) show thesis
    using assms(29) assms(30)
    by (auto simp add: after_read_def split: if_splits option.splits pump_pc.splits)
next
  case OutReport
  with assms(1) show thesis
    using assms(31)
    by (auto simp add: after_read_def split: if_splits option.splits pump_pc.splits)
next
  case (ErrRead d r)
  from assms(1) have g: "err_pump s = PumpRead" "length d \<le> 1024"
    and s': "s' = s\<lparr>err_pump := after_read FailedToReadStderr d r,
                     agent_stderr := agent_stderr s @ d\<rparr>"
    unfolding ErrRead by (simp_all split: if_splits)
  show thesis
  proof (cases r)
    case None
    show thesis
    proof (cases "d = []")
      case True
      show thesis
        by (rule assms(34) [OF ErrRead [unfolded None] g True])
           (simp only: s' None after_read_simps(3) [OF True])
    next
      case False
      show thesis
        by (rule assms(35) [OF ErrRead [unfolded None] g False])
           (simp only: s' None after_read_simps(4) [OF False])
    qed
  next
    case (Some e)
    show thesis
    proof (cases "e = EOF")
      case True
      show thesis
        by (rule assms(32) [OF ErrRead [unfolded Some True] g])
           (simp only: s' Some True after_read_simps(1))
    next
      case False
      show thesis
        by (rule assms(33) [OF ErrRead [unfolded Some] g False])
           (simp only: s' Some after_read_simps(2) [OF False])
    qed
  qed
next
  case (ErrSend r)
  with assms(1) show thesis
    using assms(36) assms(37)
    by (auto simp add: after_read_def split: if_splits option.splits pump_pc.splits)
next
  case ErrReport
  with assms(1) show thesis
    using assms(38)
    by (auto simp add: after_read_def split: if_splits option.splits pump_pc.splits)
next
  case Tick
  with assms(1) show thesis
    using assms(39)
    by (auto simp add: after_read_def split: if_splits option.splits )
next
  case (PulseSendEmpty r)
  with assms(1) show thesis
    using assms(40) assms(41)
    by (auto simp add: after_read_def split: if_splits option.splits )
next
  case (Wait r ps)
  with assms(1) show thesis
    using assms(42)
    by (auto simp add: after_read_def split: if_splits option.splits )
next
  case WaitReport
  with assms(1) show thesis
    using assms(43)
    by (auto simp add: after_read_def split: if_splits option.splits )
next
  case (Cancel c)
  with assms(1) show thesis
    using assms(44)
    by (auto simp add: after_read_def split: if_splits option.splits )
qed


lemma phase_inv_init: "phase_inv init_state"
  by (simp add: phase_inv_def init_state_def)

lemma phase_inv_step:
  assumes "step ev s = Some s'" and "phase_inv s"
  shows "phase_inv s'"
  using assms by (cases rule: step_cases) (auto simp add: phase_inv_def)

lemma at_most_one_none: "length xs \<le> Suc 0 \<Longrightarrow> length xs \<noteq> Suc 0 \<Longrightarrow> xs = []"
  by (cases xs) auto

lemma stats_inv_init: "stats_inv init_state"
  by (simp add: stats_inv_def nil_count_def init_state_def)

lemma stats_inv_step:
  assumes "step ev s = Some s'" and "phase_inv s" and "stats_inv s"
  shows "stats_inv s'"
  using assms
  by (cases rule: step_cases)
     (auto simp add: stats_inv_def nil_count_def phase_inv_def dest: at_most_one_none)





lemma from_exit_waiter_Plain [simp]: "from_exit_waiter (map_option Plain r)"
  by (cases r) simp_all




section \<open>The ledger around \<open>executeCommand\<close>\<close>

lemma Minus_Plus [simp]:
  fixes a :: "('c::ab_group_add, 'm::ab_group_add, 'g::ab_group_add) ComputeResource"
  shows "Minus (Plus a b) b = a"
  by (simp add: Minus_def Plus_def)

text \<open>When \<open>Execute\<close> has a result, by return or by panic, the ledger is as it was.\<close>

lemma Execute_restores_ledger:
  fixes as :: "('c::ab_group_add, 'm::ab_group_add, 'g::ab_group_add) AgentServer"
  assumes "Execute env s request as = (Some p, as')"
  shows "allocatedResource as' = allocatedResource as"
  using assms
  by (auto simp add: Execute_def Execute_enter_def plusAllocated_def minusAllocated_def
      MkdirAll_def Let_def split: option.splits prod.splits sup_pc.splits)

text \<open>A failed keepalive send ends the pulse for good.\<close>

lemma pulse_failed_step:
  assumes "step ev s = Some s'" and "phase_inv s"
    and "(\<exists>e. ev = PulseSendEmpty (Some e)) \<or> pulse_failed s"
  shows "pulse_failed s'"
  using assms by (cases rule: step_cases) (auto simp add: pulse_failed_def phase_inv_def)

lemma pulse_failed_run:
  "run evs s = Some s' \<Longrightarrow> phase_inv s
     \<Longrightarrow> (\<exists>e. PulseSendEmpty (Some e) \<in> set evs) \<or> pulse_failed s
     \<Longrightarrow> pulse_failed s'"
proof (induction evs arbitrary: s)
  case Nil
  then show ?case by simp
next
  case (Cons ev evs)
  from Cons.prems(1) obtain s1 where s1: "step ev s = Some s1" and r: "run evs s1 = Some s'"
    by (auto split: option.splits)
  have p1: "phase_inv s1"
    using s1 Cons.prems(2) by (rule phase_inv_step)
  show ?case
  proof (cases "(\<exists>e. ev = PulseSendEmpty (Some e)) \<or> pulse_failed s")
    case True
    from pulse_failed_step [OF s1 Cons.prems(2) this] have "pulse_failed s1" .
    with Cons.IH [OF r p1] show ?thesis by blast
  next
    case False
    with Cons.prems(3) have "\<exists>e. PulseSendEmpty (Some e) \<in> set evs" by auto
    with Cons.IH [OF r p1] show ?thesis by blast
  qed
qed

lemma phase_inv_run:
  assumes "run evs init_state = Some s"
  shows "phase_inv s"
proof (rule run_invariant [where P = phase_inv, OF _ assms phase_inv_init])
  fix ev s s'
  assume "step ev s = Some s'" and "phase_inv s"
  then show "phase_inv s'" by (rule phase_inv_step)
qed

text \<open>Once the pulse has failed, the supervisor never gets through its deferred stop.\<close>

lemma never_returns_after_failed_keepalive:
  assumes "run evs init_state = Some s" and "PulseSendEmpty (Some e) \<in> set evs"
  shows "sup s \<noteq> Returned r"
proof
  assume ret: "sup s = Returned r"
  have "pulse_failed s"
    using pulse_failed_run [OF assms(1) phase_inv_init] assms(2) by blast
  moreover have "pulse s = PulseIdle \<or> pulse s = PulseDone None"
    using phase_inv_run [OF assms(1)] ret by (simp add: phase_inv_def)
  ultimately show False by (auto simp add: pulse_failed_def)
qed

text \<open>
  C1 fails in the code. In any run of \<open>executeCommand\<close> in which one keepalive send
  fails, \<open>streamPulse\<close> returns (line 254); nothing receives from the unbuffered
  \<open>stopChan\<close> any more, so the deferred \<open>stopChan <- true\<close> of line 135 blocks for ever
  on whatever path the supervisor leaves its select. \<open>executeCommand\<close> never returns,
  the deferred \<open>minusAllocated\<close> of line 84 never runs, and however long the run goes on
  \<open>Execute\<close> has no result and the ledger holds the one \<open>Plus\<close> of the call without its
  \<open>Minus\<close>.
\<close>

theorem Execute_keeps_allocation_after_failed_keepalive:
  assumes "run evs init_state = Some s"
    and "PulseSendEmpty (Some e) \<in> set evs"
    and "exec_resource request = Some allocated"
  shows "(\<forall>r. sup s \<noteq> Returned r)
         \<and> fst (Execute env s request as) = None
         \<and> allocatedResource (snd (Execute env s request as))
             = Plus (allocatedResource as) allocated"
proof -
  have nr: "\<forall>r. sup s \<noteq> Returned r"
    using never_returns_after_failed_keepalive [OF assms(1,2)] by blast
  have ent: "Execute_enter env request as
               = (Admitted (working_dir env request) allocated,
                  plusAllocated allocated
                    (as\<lparr>created_dirs := snd (MkdirAll env (working_dir env request) (created_dirs as))\<rparr>))"
    using assms(3) by (simp add: Execute_enter_def Let_def split: prod.splits)
  have ex: "Execute env s request as
               = (None, plusAllocated allocated
                    (as\<lparr>created_dirs := snd (MkdirAll env (working_dir env request) (created_dirs as))\<rparr>))"
    using nr by (cases "sup s") (simp_all add: Execute_def ent)
  show ?thesis
    using nr by (simp add: ex plusAllocated_def)
qed

theorem Execute_keeps_allocation_after_failed_keepalive_witness:
  "map_option
     (\<lambda>s. (sup s, pulse s, kill_result s,
           Execute \<lparr>option_dir = ''/tmp'', os_mkdir_all = (\<lambda>d. None)\<rparr> s
             \<lparr>exec_name = ''job'', exec_dir = ''lib'',
              exec_instructions = Some \<lparr>flow_hash_code = 7, instructions = []\<rparr>,
              exec_resource = Some \<lparr>cpu_count = 2, memory_mb = 1024, gpu_count = 0\<rparr>\<rparr>
             \<lparr>allocatedResource =
                \<lparr>cpu_count = 1 :: int, memory_mb = 512 :: int, gpu_count = 0 :: int\<rparr>,
              created_dirs = {}\<rparr>))
     (run [StdinPipe None, StdoutPipe None, StderrPipe None, Start None, Marshal (Inr [1, 2]),
           StdinWrite None, StdinClose None, Cancel Canceled, Tick,
           PulseSendEmpty (Some Canceled), SelectCtxDone, Kill None, Release None]
        init_state)
   = Some (AtDeferredStop (Some (Plain Canceled)), PulseDone (Some (FailedToSendEmpty Canceled)),
           Some None,
           (None,
            \<lparr>allocatedResource = \<lparr>cpu_count = 3, memory_mb = 1536, gpu_count = 0\<rparr>,
             created_dirs = {[''/tmp'', ''7'', ''lib'']}\<rparr>))"
proof -
  let ?env = "\<lparr>option_dir = ''/tmp'', os_mkdir_all = (\<lambda>d. None)\<rparr>"
  let ?req = "\<lparr>exec_name = ''job'', exec_dir = ''lib'',
              exec_instructions = Some \<lparr>flow_hash_code = 7, instructions = []\<rparr>,
              exec_resource = Some \<lparr>cpu_count = 2 :: int, memory_mb = 1024 :: int, gpu_count = 0 :: int\<rparr>\<rparr>"
  let ?as = "\<lparr>allocatedResource =
                \<lparr>cpu_count = 1 :: int, memory_mb = 512 :: int, gpu_count = 0 :: int\<rparr>,
              created_dirs = {}\<rparr>"
  let ?evs = "[StdinPipe None, StdoutPipe None, StderrPipe None, Start None, Marshal (Inr [1, 2]),
           StdinWrite None, StdinClose None, Cancel Canceled, Tick,
           PulseSendEmpty (Some Canceled), SelectCtxDone, Kill None, Release None]"
  have "run ?evs init_state \<noteq> None"
    by (simp add: init_state_def)
  then obtain s where r: "run ?evs init_state = Some s"
    by blast
  have st: "sup s = AtDeferredStop (Some (Plain Canceled))"
    "pulse s = PulseDone (Some (FailedToSendEmpty Canceled))" "kill_result s = Some None"
    using r by (auto simp add: init_state_def)
  have m: "PulseSendEmpty (Some Canceled) \<in> set ?evs"
    by simp
  have a: "exec_resource ?req = Some \<lparr>cpu_count = 2, memory_mb = 1024, gpu_count = 0\<rparr>"
    by simp
  have dec: "decimal 7 = ''7''"
    by code_simp
  have d: "created_dirs (snd (Execute ?env s ?req ?as)) = {[''/tmp'', ''7'', ''lib'']}"
    by (simp add: Execute_def Execute_enter_def MkdirAll_def working_dir_def path_Join_def
        GetFlowHashCode_def dec plusAllocated_def Let_def st)
  from Execute_keeps_allocation_after_failed_keepalive [OF r m a, of ?env ?as]
  have "fst (Execute ?env s ?req ?as) = None"
    and "allocatedResource (snd (Execute ?env s ?req ?as))
           = \<lparr>cpu_count = 3, memory_mb = 1536, gpu_count = 0\<rparr>"
    by (simp_all add: Plus_def)
  with d have "Execute ?env s ?req ?as
      = (None, \<lparr>allocatedResource = \<lparr>cpu_count = 3, memory_mb = 1536, gpu_count = 0\<rparr>,
                created_dirs = {[''/tmp'', ''7'', ''lib'']}\<rparr>)"
    by (cases "Execute ?env s ?req ?as") (auto intro: AgentServer.equality)
  then show ?thesis
    unfolding r using st by simp
qed

section \<open>What the runs of \<open>executeCommand\<close> send and return\<close>

lemma phase_stats_inv_run:
  assumes "run evs init_state = Some s"
  shows "phase_inv s \<and> stats_inv s"
proof (rule run_invariant [where P = "\<lambda>s. phase_inv s \<and> stats_inv s", OF _ assms])
  fix ev s s'
  assume "step ev s = Some s'" and "phase_inv s \<and> stats_inv s"
  then show "phase_inv s' \<and> stats_inv s'"
    using phase_inv_step stats_inv_step by blast
next
  show "phase_inv init_state \<and> stats_inv init_state"
    using phase_inv_init stats_inv_init by blast
qed



lemma stats_at_most_once:
  assumes "stats_inv s"
  shows "length (filter is_exit_stats (stream s)) \<le> 1"
  using assms by (simp add: stats_inv_def nil_count_def)

lemma stats_only_after_clean_exit:
  assumes "stats_inv s" and "filter is_exit_stats (stream s) \<noteq> []"
  shows "waitErr s = Some None \<and> (sup s = AtDeferredStop None \<or> sup s = Returned None)"
  using assms by (auto simp add: stats_inv_def)

text \<open>After the supervisor has returned, only the pumps can still send.\<close>

lemma step_after_return:
  assumes "step ev s = Some s'" and "phase_inv s" and "sup s = Returned r"
  shows "sup s' = Returned r
         \<and> (stream s' = stream s \<or> (\<exists>d. stream s' = stream s @ [Output d])
              \<or> (\<exists>d. stream s' = stream s @ [Error d]))"
  using assms by (cases rule: step_cases) (auto simp add: phase_inv_def)

text \<open>
  C7 fails in the code. After the child is spawned, a failed serialization (line 142) and
  a failed write to stdin (line 146) return at once: the supervisor returns (after the
  deferred stop) and \<open>stdin.Close\<close> has not been called.
\<close>

theorem stdin_left_open_on_error_paths:
  "map_option (\<lambda>s. (sup s, stdin_close s))
     (run [StdinPipe None, StdoutPipe None, StderrPipe None, Start None,
           Marshal (Inl (Errno 1)), StopPulse] init_state)
     = Some (Returned (Some (Plain (Errno 1))), None)
   \<and> map_option (\<lambda>s. (sup s, stdin_close s))
     (run [StdinPipe None, StdoutPipe None, StderrPipe None, Start None,
           Marshal (Inr [1, 2]), StdinWrite (Some (Errno 32)), StopPulse] init_state)
     = Some (Returned (Some (Plain (Errno 32))), None)"
  by (simp add: init_state_def)

text \<open>
  C2, as stated, fails. The stdout pump has read a chunk when the child exits cleanly;
  the exit waiter reports nil and the supervisor sends the exit statistics; then the pump
  sends its chunk, and the timer ticks before the pulse takes the stop signal, so a
  keepalive follows too. The call returns nil with the exit statistics first on the
  stream.
\<close>

theorem exit_stats_last_counterexample:
  "map_option (\<lambda>s. (sup s, stream s))
     (run [StdinPipe None, StdoutPipe None, StderrPipe None, Start None, Marshal (Inr [1, 2]),
           StdinWrite None, StdinClose None, OutRead [104, 105] None,
           Wait None (Some \<lparr>SystemTime = 3, UserTime = 5\<rparr>), WaitReport, SelectErrChan,
           SendExitStats None, OutSend None, Tick, PulseSendEmpty None, StopPulse]
        init_state)
     = Some (Returned None, [ExitStats 3 5, Output [104, 105], Empty])"
  by (simp add: init_state_def after_read_def)

text \<open>
  C2, amended. In every run the exit statistics are sent at most once, and only after
  the exit waiter has reported a clean exit; they are the last thing the supervisor
  sends, for it is then at its deferred stop or has returned. Chunks and keepalives of
  tasks still running can follow them, but once the supervisor has returned the pulse has
  stopped: every later step leaves the stream as it is or adds a stdout or stderr chunk.
\<close>

theorem exit_stats_once_after_clean_exit:
  assumes "run evs init_state = Some s"
  shows "length (filter is_exit_stats (stream s)) \<le> 1
         \<and> (filter is_exit_stats (stream s) \<noteq> [] \<longrightarrow>
               waitErr s = Some None \<and> (sup s = AtDeferredStop None \<or> sup s = Returned None))
         \<and> (\<forall>r ev s'. sup s = Returned r \<and> step ev s = Some s' \<longrightarrow>
               sup s' = Returned r
               \<and> (stream s' = stream s \<or> (\<exists>d. stream s' = stream s @ [Output d])
                    \<or> (\<exists>d. stream s' = stream s @ [Error d])))"
proof -
  from phase_stats_inv_run [OF assms] have p: "phase_inv s" and st: "stats_inv s"
    by simp_all
  show ?thesis
    using stats_at_most_once [OF st] stats_only_after_clean_exit [OF st]
      step_after_return [OF _ p]
    by blast
qed

theorem exit_stats_once_after_clean_exit_witness:
  "map_option (\<lambda>s. (length (filter is_exit_stats (stream s)), waitErr s, sup s))
     (run [StdinPipe None, StdoutPipe None, StderrPipe None, Start None, Marshal (Inr [1, 2]),
           StdinWrite None, StdinClose None, OutRead [104, 105] None,
           Wait None (Some \<lparr>SystemTime = 3, UserTime = 5\<rparr>), WaitReport, SelectErrChan,
           SendExitStats None, OutSend None, Tick, PulseSendEmpty None, StopPulse]
        init_state)
     = Some (1, Some None, Returned None)"
proof -
  let ?evs = "[StdinPipe None, StdoutPipe None, StderrPipe None, Start None, Marshal (Inr [1, 2]),
           StdinWrite None, StdinClose None, OutRead [104, 105] None,
           Wait None (Some \<lparr>SystemTime = 3, UserTime = 5\<rparr>), WaitReport, SelectErrChan,
           SendExitStats None, OutSend None, Tick, PulseSendEmpty None, StopPulse]"
  have "run ?evs init_state \<noteq> None"
    by (simp add: init_state_def after_read_def)
  then obtain s where r: "run ?evs init_state = Some s"
    by blast
  have st: "stream s = [ExitStats 3 5, Output [104, 105], Empty]" and su: "sup s = Returned None"
    using r by (auto simp add: init_state_def after_read_def)
  have ne: "filter is_exit_stats (stream s) \<noteq> []"
    by (simp add: st)
  from exit_stats_once_after_clean_exit [OF r] ne
  have "waitErr s = Some None"
    by blast
  then show ?thesis
    unfolding r by (simp add: st su)
qed

section \<open>Which errors end a call\<close>








section \<open>The exit error of the child\<close>








end
